theory Spec2Isabelle
  imports Complex_Main "HOL-Library.Word" "HOL-Library.Signed_Division" "HOL-Library.Log_Nat"
begin

unbundle bit_operations_syntax

section \<open>Shared measurement store and packed telemetry record\<close>

text \<open>
  \<^verbatim>\<open>struct system_measurement\<close> (main.h): one \<^verbatim>\<open>atomic_t\<close> per quantity. On the
  32-bit target \<^verbatim>\<open>atomic_t\<close> is a signed 32-bit machine word; \<open>sint\<close> reads the
  stored value.
\<close>

record system_measurement =
  brightness :: "32 word"
  moisture :: "32 word"
  accel_x :: "32 word"
  accel_y :: "32 word"
  accel_z :: "32 word"
  temp :: "32 word"
  hum :: "32 word"
  red :: "32 word"
  green :: "32 word"
  blue :: "32 word"
  clear :: "32 word"
  gps_lat :: "32 word"
  gps_lon :: "32 word"
  gps_alt :: "32 word"
  gps_sats :: "32 word"
  gps_time :: "32 word"

text \<open>
  \<^verbatim>\<open>struct main_measurement\<close> (phase 3 main.c), the packed record handed to the
  radio. The fields carry the prefix \<open>md_\<close> (for the variable \<^verbatim>\<open>main_data\<close>)
  where the C name is also a field of another struct. \<^verbatim>\<open>uint8_t time[3]\<close> is the
  three-element list \<open>md_time\<close>. The signed fields (\<^verbatim>\<open>int32_t\<close>, \<^verbatim>\<open>int16_t\<close>,
  \<^verbatim>\<open>int8_t\<close>) are read with \<open>sint\<close>, the unsigned ones with \<open>unat\<close>.
\<close>

record main_measurement =
  md_lat :: "32 word"
  md_lon :: "32 word"
  md_alt :: "32 word"
  md_time :: "8 word list"
  md_sats :: "8 word"
  md_temp :: "16 word"
  md_hum :: "16 word"
  md_light :: "16 word"
  md_moisture :: "16 word"
  r_norm :: "8 word"
  g_norm :: "8 word"
  b_norm :: "8 word"
  x_axis :: "8 word"
  y_axis :: "8 word"
  z_axis :: "8 word"

text \<open>The static initialiser of \<^verbatim>\<open>main_data\<close>: every field zero.\<close>

definition main_data_init :: main_measurement where
  "main_data_init =
     \<lparr> md_lat = 0, md_lon = 0, md_alt = 0, md_time = [0, 0, 0], md_sats = 0,
       md_temp = 0, md_hum = 0, md_light = 0, md_moisture = 0,
       r_norm = 0, g_norm = 0, b_norm = 0, x_axis = 0, y_axis = 0, z_axis = 0 \<rparr>"

text \<open>
  Faults of the C arithmetic that the model keeps as values: an integer division by
  zero, a signed multiplication that leaves the range of \<^verbatim>\<open>long\<close>, and a
  float-to-integer conversion whose value does not fit the integer type.
\<close>

datatype fault = DivisionByZero | SignedOverflow | ConversionRange

section \<open>Telemetry encoder\<close>

text \<open>
  The expression \<^verbatim>\<open>(uint8_t)((atomic_get(&measure.red) * 100) / clear)\<close>: the
  product is a signed \<^verbatim>\<open>long\<close> multiplication, the division is then carried out
  in \<^verbatim>\<open>uint32_t\<close> (the product is converted to unsigned), and the quotient is
  narrowed to one byte.
\<close>

definition norm_channel :: "32 word \<Rightarrow> 32 word \<Rightarrow> fault + 8 word" where
  "norm_channel ch clr =
     (if sint ch * 100 < - (2 ^ 31) \<or> 2 ^ 31 \<le> sint ch * 100 then Inl SignedOverflow
      else if clr = 0 then Inl DivisionByZero
      else Inr (ucast ((ch * 100) div clr)))"

text \<open>
  \<^verbatim>\<open>get_measurements\<close> (phase 3 main.c). It reads the store \<^verbatim>\<open>measure\<close> (here \<open>meas\<close>) and
  overwrites the static record \<open>main_data\<close> field by field; the three colour bytes
  are assigned only inside \<^verbatim>\<open>if (clear > 0)\<close>, the comparison being unsigned.
  \<^verbatim>\<open>atomic_get(..) / 10\<close> is C's signed division, which truncates towards zero
  (\<open>sdiv\<close> on \<open>int\<close>); the cast to \<^verbatim>\<open>int8_t\<close> keeps the low eight bits.
\<close>

definition get_measurements :: "system_measurement \<Rightarrow> main_measurement \<Rightarrow> fault + main_measurement" where
  "get_measurements meas main_data =
     (let full_time = gps_time meas;
          d1 = main_data
            \<lparr> md_lat := gps_lat meas,
              md_lon := gps_lon meas,
              md_alt := gps_alt meas,
              md_sats := ucast (gps_sats meas),
              md_time := [ucast (full_time div 10000),
                          ucast ((full_time div 100) mod 100),
                          ucast (full_time mod 100)],
              md_temp := ucast (temp meas),
              md_hum := ucast (hum meas),
              md_light := ucast (brightness meas),
              md_moisture := ucast (moisture meas) \<rparr>;
          clr = clear meas;
          accel = (\<lambda>d. d
            \<lparr> x_axis := word_of_int (sint (accel_x meas) sdiv 10),
              y_axis := word_of_int (sint (accel_y meas) sdiv 10),
              z_axis := word_of_int (sint (accel_z meas) sdiv 10) \<rparr>)
      in if clr > 0 then
           (case norm_channel (red meas) clr of Inl e \<Rightarrow> Inl e | Inr r \<Rightarrow>
            (case norm_channel (green meas) clr of Inl e \<Rightarrow> Inl e | Inr g \<Rightarrow>
             (case norm_channel (blue meas) clr of Inl e \<Rightarrow> Inl e | Inr b \<Rightarrow>
                Inr (accel (d1 \<lparr> r_norm := r, g_norm := g, b_norm := b \<rparr>)))))
         else Inr (accel d1))"

text \<open>The store of the specification's end-to-end scenario.\<close>

definition scenario_store :: system_measurement where
  "scenario_store =
     \<lparr> brightness = 500, moisture = 300,
       accel_x = 100, accel_y = - 50, accel_z = 980,
       temp = 2550, hum = 6000,
       red = 50, green = 30, blue = 20, clear = 100,
       gps_lat = 35709662, gps_lon = 139810793, gps_alt = 10000,
       gps_sats = 7, gps_time = 123456 \<rparr>"

section \<open>Colour sensor reader and histories of the store\<close>

text \<open>
  \<^verbatim>\<open>ColorSensorData\<close> (color.h): four \<^verbatim>\<open>uint16_t\<close> channel values.
\<close>

record ColorSensorData =
  cs_clear :: "16 word"
  cs_red :: "16 word"
  cs_green :: "16 word"
  cs_blue :: "16 word"

text \<open>
  \<^verbatim>\<open>color_read_rgb\<close> (phase 3 color.c). \<open>ret\<close> is the result of the register read
  \<^verbatim>\<open>color_read_regs\<close> and \<open>buf\<close> the eight bytes it delivered. On a negative result the
  function returns it and leaves \<^verbatim>\<open>*data\<close> unwritten (\<open>None\<close>). Otherwise each
  channel is \<^verbatim>\<open>(buf[2i+1] << 8) | buf[2i]\<close> kept in 16 bits, a clear value of zero
  is replaced by 1, and the function returns 0.
\<close>

definition color_read_rgb :: "int \<Rightarrow> 8 word list \<Rightarrow> int \<times> ColorSensorData option" where
  "color_read_rgb ret buf =
     (if ret < 0 then (ret, None)
      else
        (let clr = push_bit 8 (ucast (buf ! 1)) OR ucast (buf ! 0);
             rd = push_bit 8 (ucast (buf ! 3)) OR ucast (buf ! 2);
             gr = push_bit 8 (ucast (buf ! 5)) OR ucast (buf ! 4);
             bl = push_bit 8 (ucast (buf ! 7)) OR ucast (buf ! 6);
             clr1 = (if clr = 0 then 1 else clr)
         in (0, Some \<lparr> cs_clear = clr1, cs_red = rd, cs_green = gr, cs_blue = bl \<rparr>)))"

text \<open>
  \<^verbatim>\<open>read_color_sensor\<close> (sensors_thread.c of plant_monitoring_system; the phase 3
  tree has only the header of this file): the four colour slots of the store are
  written when \<^verbatim>\<open>color_read_rgb\<close> returns 0 and left alone otherwise. It is the only
  place where the slots \<^verbatim>\<open>red\<close>, \<^verbatim>\<open>green\<close>, \<^verbatim>\<open>blue\<close> and \<^verbatim>\<open>clear\<close> are written.
\<close>

definition read_color_sensor ::
  "int \<Rightarrow> 8 word list \<Rightarrow> system_measurement \<Rightarrow> system_measurement" where
  "read_color_sensor ret buf meas =
     (case color_read_rgb ret buf of (r, color_data) \<Rightarrow>
      if r = 0 then
        meas \<lparr> red := ucast (cs_red (the color_data)),
               green := ucast (cs_green (the color_data)),
               blue := ucast (cs_blue (the color_data)),
               clear := ucast (cs_clear (the color_data)) \<rparr>
      else meas)"

text \<open>The static initialiser of \<^verbatim>\<open>measure\<close> (main.c): every slot \<^verbatim>\<open>ATOMIC_INIT(0)\<close>.\<close>

definition measure_init :: system_measurement where
  "measure_init =
     \<lparr> brightness = 0, moisture = 0, accel_x = 0, accel_y = 0, accel_z = 0, temp = 0, hum = 0,
       red = 0, green = 0, blue = 0, clear = 0,
       gps_lat = 0, gps_lon = 0, gps_alt = 0, gps_sats = 0, gps_time = 0 \<rparr>"

text \<open>
  A history of the program is a list of events on the pair of the store and the static
  output record, starting from their initialisers. The main loop releases the workers,
  waits for both of them (\<^verbatim>\<open>main_sensors_sem\<close>, \<^verbatim>\<open>main_gps_sem\<close>) and only then calls
  \<^verbatim>\<open>get_measurements\<close>, so an event runs as a whole:
  \<^item> \<open>ColourRead ret buf\<close>: one call of \<^verbatim>\<open>read_color_sensor\<close>;
  \<^item> \<open>OtherWrite w\<close>: the other writers (brightness, moisture, acceleration,
    temperature, humidity, position) put arbitrary values \<open>w\<close> into their slots; the
    four colour slots stay;
  \<^item> \<open>Encode\<close>: one call of \<^verbatim>\<open>get_measurements\<close>, which replaces the output record;
    a fault of the encoder ends the history.
\<close>

datatype event = ColourRead int "8 word list" | OtherWrite system_measurement | Encode

definition write_other :: "system_measurement \<Rightarrow> system_measurement \<Rightarrow> system_measurement" where
  "write_other w meas =
     w \<lparr> red := red meas, green := green meas, blue := blue meas, clear := clear meas \<rparr>"

fun apply_event ::
  "event \<Rightarrow> system_measurement \<times> main_measurement \<Rightarrow>
     fault + system_measurement \<times> main_measurement" where
  "apply_event (ColourRead ret buf) (meas, main_data) =
     Inr (read_color_sensor ret buf meas, main_data)"
| "apply_event (OtherWrite w) (meas, main_data) = Inr (write_other w meas, main_data)"
| "apply_event Encode (meas, main_data) =
     (case get_measurements meas main_data of Inl e \<Rightarrow> Inl e | Inr d \<Rightarrow> Inr (meas, d))"

fun run_events ::
  "event list \<Rightarrow> system_measurement \<times> main_measurement \<Rightarrow>
     fault + system_measurement \<times> main_measurement" where
  "run_events [] s = Inr s"
| "run_events (e # es) s =
     (case apply_event e s of Inl f \<Rightarrow> Inl f | Inr s' \<Rightarrow> run_events es s')"

text \<open>
  The colour slots are in range when multiplying each of them by 100 stays within a
  signed 32-bit \<^verbatim>\<open>long\<close>; every 16-bit sensor reading is. The invariant of the
  histories: the colour slots are in range, and while the clear slot is zero the colour
  bytes of the output record are zero.
\<close>

definition colour_in_range :: "system_measurement \<Rightarrow> bool" where
  "colour_in_range meas =
     (\<bar>sint (red meas)\<bar> \<le> 21474836 \<and> \<bar>sint (green meas)\<bar> \<le> 21474836 \<and>
      \<bar>sint (blue meas)\<bar> \<le> 21474836)"

definition colour_invariant :: "system_measurement \<times> main_measurement \<Rightarrow> bool" where
  "colour_invariant s =
     (colour_in_range (fst s) \<and>
      (clear (fst s) = 0 \<longrightarrow> r_norm (snd s) = 0 \<and> g_norm (snd s) = 0 \<and> b_norm (snd s) = 0))"

section \<open>Single-precision arithmetic\<close>

text \<open>
  The GPS code computes in C \<^verbatim>\<open>float\<close>. The model is IEEE 754 binary32 with
  round-to-nearest, ties-to-even, every operation rounded on its own (no wider
  intermediate precision, no fused multiply-add): a finite value is the rational number
  it denotes, and \<open>f32_round\<close> maps an exact result to the nearest binary32 value
  (24 significant bits, least exponent -126, subnormal spacing \<open>2 powr -149\<close>, overflow
  to infinity from \<open>2 powr 128\<close>). The sign of zero is not represented: this code never
  divides by a value that can be zero, and comparison and conversion to an integer do
  not see it.
\<close>

datatype f32 = Fin rat | PInf | NInf | NaN

definition pow2 :: "int \<Rightarrow> rat" where
  "pow2 e = (if 0 \<le> e then of_int (2 ^ nat e) else 1 / of_int (2 ^ nat (- e)))"

text \<open>
  The binary exponent of \<open>x\<close>, that is \<open>\<lfloor>log\<^sub>2 \<bar>x\<bar>\<rfloor>\<close>, not below -126. For
  \<open>\<bar>x\<bar> = p / q\<close> it is the difference of the bit lengths of \<open>p\<close> and \<open>q\<close> or one
  less.
\<close>

definition f32_exponent :: "rat \<Rightarrow> int" where
  "f32_exponent x =
     (let (p, q) = quotient_of \<bar>x\<bar>;
          e = bitlen p - bitlen q
      in max (- 126) (if pow2 e \<le> \<bar>x\<bar> then e else e - 1))"

definition round_half_even :: "rat \<Rightarrow> int" where
  "round_half_even y =
     (let f = \<lfloor>y\<rfloor>; d = y - of_int f
      in if d < 1 / 2 then f else if 1 / 2 < d then f + 1 else if even f then f else f + 1)"

definition f32_round :: "rat \<Rightarrow> f32" where
  "f32_round x =
     (let q = f32_exponent x - 23;
          r = of_int (round_half_even (x / pow2 q)) * pow2 q
      in if pow2 128 \<le> r then PInf else if r \<le> - pow2 128 then NInf else Fin r)"

fun f32_neg :: "f32 \<Rightarrow> f32" where
  "f32_neg (Fin a) = Fin (- a)"
| "f32_neg PInf = NInf"
| "f32_neg NInf = PInf"
| "f32_neg NaN = NaN"

fun f32_add :: "f32 \<Rightarrow> f32 \<Rightarrow> f32" where
  "f32_add (Fin a) (Fin b) = f32_round (a + b)"
| "f32_add NaN _ = NaN"
| "f32_add _ NaN = NaN"
| "f32_add PInf NInf = NaN"
| "f32_add NInf PInf = NaN"
| "f32_add PInf _ = PInf"
| "f32_add NInf _ = NInf"
| "f32_add _ PInf = PInf"
| "f32_add _ NInf = NInf"

definition f32_sub :: "f32 \<Rightarrow> f32 \<Rightarrow> f32" where
  "f32_sub a b = f32_add a (f32_neg b)"

fun f32_mul :: "f32 \<Rightarrow> f32 \<Rightarrow> f32" where
  "f32_mul (Fin a) (Fin b) = f32_round (a * b)"
| "f32_mul NaN _ = NaN"
| "f32_mul _ NaN = NaN"
| "f32_mul (Fin a) PInf = (if a = 0 then NaN else if 0 < a then PInf else NInf)"
| "f32_mul (Fin a) NInf = (if a = 0 then NaN else if 0 < a then NInf else PInf)"
| "f32_mul PInf (Fin b) = (if b = 0 then NaN else if 0 < b then PInf else NInf)"
| "f32_mul NInf (Fin b) = (if b = 0 then NaN else if 0 < b then NInf else PInf)"
| "f32_mul PInf PInf = PInf"
| "f32_mul PInf NInf = NInf"
| "f32_mul NInf PInf = NInf"
| "f32_mul NInf NInf = PInf"

fun f32_div :: "f32 \<Rightarrow> f32 \<Rightarrow> f32" where
  "f32_div (Fin a) (Fin b) =
     (if b = 0 then (if a = 0 then NaN else if 0 < a then PInf else NInf)
      else f32_round (a / b))"
| "f32_div NaN _ = NaN"
| "f32_div _ NaN = NaN"
| "f32_div (Fin a) PInf = Fin 0"
| "f32_div (Fin a) NInf = Fin 0"
| "f32_div PInf (Fin b) = (if 0 \<le> b then PInf else NInf)"
| "f32_div NInf (Fin b) = (if 0 \<le> b then NInf else PInf)"
| "f32_div _ _ = NaN"

text \<open>Conversion of a C \<^verbatim>\<open>int\<close> to \<^verbatim>\<open>float\<close>, and a decimal \<^verbatim>\<open>float\<close> literal.\<close>

definition f32_of_int :: "int \<Rightarrow> f32" where
  "f32_of_int i = f32_round (of_int i)"

definition f32_lit :: "rat \<Rightarrow> f32" where
  "f32_lit x = f32_round x"

text \<open>
  \<^verbatim>\<open>(int)x\<close> and \<^verbatim>\<open>(int32_t)x\<close>: the fraction is discarded (truncation towards
  zero); C leaves the conversion undefined when the result does not fit 32 bits, and
  for infinities and NaN.
\<close>

fun f32_to_int32 :: "f32 \<Rightarrow> fault + int" where
  "f32_to_int32 (Fin a) =
     (let t = (if 0 \<le> a then \<lfloor>a\<rfloor> else \<lceil>a\<rceil>)
      in if - (2 ^ 31) \<le> t \<and> t < 2 ^ 31 then Inr t else Inl ConversionRange)"
| "f32_to_int32 _ = Inl ConversionRange"

text \<open>The comparison \<^verbatim>\<open>x == 0.0f\<close>.\<close>

fun f32_is_zero :: "f32 \<Rightarrow> bool" where
  "f32_is_zero (Fin a) = (a = 0)"
| "f32_is_zero _ = False"

section \<open>C strings\<close>

text \<open>
  A \<^verbatim>\<open>char\<close> buffer is a list of characters; the C string it holds ends before the
  first NUL. \<open>strstr\<close> tells whether C's \<^verbatim>\<open>strstr\<close> returns a non-null pointer.
\<close>

definition cstr :: "string \<Rightarrow> string" where
  "cstr buf = takeWhile (\<lambda>c. c \<noteq> CHR 0x00) buf"

fun strstr :: "string \<Rightarrow> string \<Rightarrow> bool" where
  "strstr [] needle = (needle = [])"
| "strstr (c # cs) needle = (take (length needle) (c # cs) = needle \<or> strstr cs needle)"

section \<open>Sentence parser (gps.c)\<close>

definition BUF_SIZE :: nat where
  "BUF_SIZE = 128"

definition MAX_FIELDS :: nat where
  "MAX_FIELDS = 16"

text \<open>\<^verbatim>\<open>gps_data_t\<close> (gps.h). \<open>utc_time\<close> is the C string held in \<^verbatim>\<open>char utc_time[16]\<close>.\<close>

record gps_data_t =
  lat :: f32
  lon :: f32
  alt :: f32
  sats :: "32 word"
  hdop :: f32
  utc_time :: string

text \<open>
  The scanning loop of \<^verbatim>\<open>nmea_to_degrees\<close>, with its four loop variables. The loop
  ends at the end of the string or at the first character that is neither a digit nor a
  dot. \<^verbatim>\<open>c - '0'\<close> is an \<^verbatim>\<open>int\<close>, converted to \<^verbatim>\<open>float\<close> for the arithmetic.
\<close>

definition is_digit :: "char \<Rightarrow> bool" where
  "is_digit c = (of_char (CHR ''0'') \<le> (of_char c :: nat) \<and> (of_char c :: nat) \<le> of_char (CHR ''9''))"

definition digit_val :: "char \<Rightarrow> int" where
  "digit_val c = of_char c - of_char (CHR ''0'')"

fun nmea_scan :: "string \<Rightarrow> f32 \<Rightarrow> f32 \<Rightarrow> bool \<Rightarrow> f32 \<Rightarrow> f32 \<times> f32" where
  "nmea_scan [] val decimal seen_dot divisor = (val, decimal)"
| "nmea_scan (c # cs) val decimal seen_dot divisor =
     (if is_digit c then
        (if \<not> seen_dot
         then nmea_scan cs (f32_add (f32_mul val (Fin 10)) (f32_of_int (digit_val c)))
                decimal seen_dot divisor
         else nmea_scan cs val (f32_add decimal (f32_div (f32_of_int (digit_val c)) divisor))
                seen_dot (f32_mul divisor (Fin 10)))
      else if c = CHR ''.'' then nmea_scan cs val decimal True divisor
      else (val, decimal))"

text \<open>
  \<^verbatim>\<open>nmea_to_degrees\<close>. The argument is \<open>None\<close> for a null pointer. The result is the
  fault \<open>ConversionRange\<close> where \<^verbatim>\<open>(int)(value / 100.0f)\<close> is undefined in C.
\<close>

definition nmea_to_degrees :: "string option \<Rightarrow> char \<Rightarrow> fault + f32" where
  "nmea_to_degrees nmea dir =
     (case nmea of None \<Rightarrow> Inr (Fin 0) | Some str \<Rightarrow>
      if length str < 4 then Inr (Fin 0)
      else
        (let (val0, decimal) = nmea_scan str (Fin 0) (Fin 0) False (Fin 10);
             val = f32_add val0 decimal
         in case f32_to_int32 (f32_div val (Fin 100)) of Inl e \<Rightarrow> Inl e | Inr degrees \<Rightarrow>
            (let minutes = f32_sub val (f32_mul (f32_of_int degrees) (Fin 100));
                 result = f32_add (f32_of_int degrees) (f32_div minutes (Fin 60))
             in Inr (if dir = CHR ''S'' \<or> dir = CHR ''W'' then f32_neg result else result))))"

text \<open>
  The splitting loop of \<^verbatim>\<open>parse_gga\<close>. Every comma met while fewer than
  \<^verbatim>\<open>MAX_FIELDS\<close> fields have been started ends the current field and starts the next
  one; once the last permitted field has been started the loop stops, and that field
  runs to the end of the buffer, commas included. The first argument counts the fields
  that may still be started. The result lists the strings of the non-null entries of
  \<^verbatim>\<open>fields\<close>, in order.
\<close>

fun split_fields :: "nat \<Rightarrow> string \<Rightarrow> string list" where
  "split_fields 0 s = [s]"
| "split_fields (Suc n) s =
     (if CHR '','' \<in> set s
      then takeWhile (\<lambda>c. c \<noteq> CHR '','') s
             # split_fields n (tl (dropWhile (\<lambda>c. c \<noteq> CHR '','') s))
      else [s])"

text \<open>\<^verbatim>\<open>fields[i]\<close>: \<open>None\<close> for an entry that is still null.\<close>

definition field_at :: "string list \<Rightarrow> nat \<Rightarrow> string option" where
  "field_at flds i = (if i < length flds then Some (flds ! i) else None)"

text \<open>\<^verbatim>\<open>fields[3][0]\<close>: the first character of a field, NUL for the empty string.\<close>

definition first_char :: "string \<Rightarrow> char" where
  "first_char s = (case s of [] \<Rightarrow> CHR 0x00 | c # _ \<Rightarrow> c)"

text \<open>
  \<^verbatim>\<open>parse_gga\<close>. The C library's \<^verbatim>\<open>(float)atof(..)\<close> and \<^verbatim>\<open>atoi(..)\<close> are the
  parameters \<open>atof\<close> and \<open>atoi\<close>. The result is \<open>Inr None\<close> where the C function
  returns false, \<open>Inr (Some out)\<close> where it returns true with \<^verbatim>\<open>*out\<close> filled in.
\<close>

definition parse_gga ::
  "(string \<Rightarrow> f32) \<Rightarrow> (string \<Rightarrow> 32 word) \<Rightarrow> string \<Rightarrow> fault + gps_data_t option" where
  "parse_gga atof atoi line =
     (let buf = take (BUF_SIZE - 1) (cstr line);
          flds = split_fields (MAX_FIELDS - 1) buf
      in if field_at flds 0 = None \<or> \<not> strstr (the (field_at flds 0)) ''GGA'' then Inr None
         else if field_at flds 2 = None \<or> field_at flds 3 = None \<or>
                 field_at flds 4 = None \<or> field_at flds 5 = None then Inr None
         else
           case nmea_to_degrees (field_at flds 2) (first_char (the (field_at flds 3))) of
             Inl e \<Rightarrow> Inl e
           | Inr la \<Rightarrow>
           case nmea_to_degrees (field_at flds 4) (first_char (the (field_at flds 5))) of
             Inl e \<Rightarrow> Inl e
           | Inr lo \<Rightarrow>
             Inr (Some
               \<lparr> lat = la, lon = lo,
                 alt = (case field_at flds 9 of Some f \<Rightarrow> atof f | None \<Rightarrow> Fin 0),
                 sats = (case field_at flds 7 of Some f \<Rightarrow> atoi f | None \<Rightarrow> 0),
                 hdop = (case field_at flds 8 of Some f \<Rightarrow> atof f | None \<Rightarrow> Fin 0),
                 utc_time = (case field_at flds 1 of Some f \<Rightarrow> take 15 f | None \<Rightarrow> []) \<rparr>))"

section \<open>Byte-stream line reassembler (gps.c)\<close>

text \<open>
  The static variables of gps.c: the line buffer \<^verbatim>\<open>nmea_line[BUF_SIZE]\<close>, the write
  position \<^verbatim>\<open>line_pos\<close>, the mailbox \<^verbatim>\<open>parsed_data\<close> and the count of the
  semaphore \<^verbatim>\<open>parsed_sem\<close>, which \<^verbatim>\<open>gps_init\<close> creates with count 0 and limit 1.
\<close>

record gps_module =
  nmea_line :: string
  line_pos :: nat
  parsed_data :: gps_data_t
  parsed_sem :: nat

text \<open>Zephyr's \<^verbatim>\<open>k_sem_give\<close> on a semaphore of limit 1.\<close>

definition k_sem_give :: "nat \<Rightarrow> nat" where
  "k_sem_give count = (if count < 1 then count + 1 else count)"

text \<open>
  The body of the receive loop of \<^verbatim>\<open>uart_isr\<close> for one byte \<open>c\<close> read from the
  FIFO, in its two steps. \<open>store_byte\<close> is the first \<^verbatim>\<open>if\<close>: a start marker resets
  the buffer, any other byte is appended while there is room. \<open>candidate_line\<close> is the
  C string the buffer holds once \<^verbatim>\<open>nmea_line[line_pos] = '\0'\<close> has been written.
\<close>

definition store_byte :: "char \<Rightarrow> gps_module \<Rightarrow> gps_module" where
  "store_byte c s =
     (if c = CHR ''$''
      then s \<lparr> nmea_line := (nmea_line s)[0 := c], line_pos := 1 \<rparr>
      else if line_pos s < BUF_SIZE - 1
      then s \<lparr> nmea_line := (nmea_line s)[line_pos s := c], line_pos := line_pos s + 1 \<rparr>
      else s)"

definition terminate_line :: "gps_module \<Rightarrow> gps_module" where
  "terminate_line s = s \<lparr> nmea_line := (nmea_line s)[line_pos s := CHR 0x00] \<rparr>"

definition candidate_line :: "gps_module \<Rightarrow> string" where
  "candidate_line s = cstr (nmea_line (terminate_line s))"

definition uart_isr_byte ::
  "(string \<Rightarrow> f32) \<Rightarrow> (string \<Rightarrow> 32 word) \<Rightarrow> char \<Rightarrow> gps_module \<Rightarrow> fault + gps_module" where
  "uart_isr_byte atof atoi c s =
     (let s1 = store_byte c s
      in if c = CHR 0x0A then
           (let s2 = terminate_line s1
            in if strstr (cstr (nmea_line s2)) ''$GPGGA'' \<or>
                  strstr (cstr (nmea_line s2)) ''$GNGGA'' then
                 (case parse_gga atof atoi (nmea_line s2) of
                    Inl e \<Rightarrow> Inl e
                  | Inr None \<Rightarrow> Inr (s2 \<lparr> line_pos := 0 \<rparr>)
                  | Inr (Some tmp) \<Rightarrow>
                      Inr (s2 \<lparr> parsed_data := tmp,
                                parsed_sem := k_sem_give (parsed_sem s2),
                                line_pos := 0 \<rparr>))
               else Inr (s2 \<lparr> line_pos := 0 \<rparr>))
         else Inr s1)"

text \<open>
  \<^verbatim>\<open>uart_isr\<close> on the bytes it reads from the FIFO, in order. The static variables
  persist between interrupts, so a stream delivered over several interrupts is the
  concatenation of their bytes.
\<close>

fun uart_isr ::
  "(string \<Rightarrow> f32) \<Rightarrow> (string \<Rightarrow> 32 word) \<Rightarrow> string \<Rightarrow> gps_module \<Rightarrow> fault + gps_module" where
  "uart_isr atof atoi [] s = Inr s"
| "uart_isr atof atoi (c # cs) s =
     (case uart_isr_byte atof atoi c s of
        Inl e \<Rightarrow> Inl e
      | Inr s' \<Rightarrow> uart_isr atof atoi cs s')"

section \<open>Position worker (gps.c, gps_thread.c)\<close>

text \<open>
  \<^verbatim>\<open>gps_wait_for_gga\<close>. \<open>out\<close> is \<open>None\<close> for a null pointer. The outcome of
  Zephyr's \<^verbatim>\<open>k_sem_take(&parsed_sem, timeout)\<close> is the parameter \<open>sem_ret\<close> (0 when
  the semaphore was taken, negative when the wait timed out), and \<open>mailbox\<close> is the
  content of \<^verbatim>\<open>parsed_data\<close> when it is copied.
\<close>

definition EINVAL :: int where
  "EINVAL = 22"

definition gps_wait_for_gga ::
  "gps_data_t option \<Rightarrow> int \<Rightarrow> gps_data_t \<Rightarrow> int \<times> gps_data_t option" where
  "gps_wait_for_gga out sem_ret mailbox =
     (if out = None then (- EINVAL, out)
      else if sem_ret < 0 then (sem_ret, out)
      else (0, Some mailbox))"

text \<open>The literals \<^verbatim>\<open>35.709662f\<close> and \<^verbatim>\<open>139.810793f\<close> of the fallback position.\<close>

definition fallback_lat_deg :: f32 where
  "fallback_lat_deg = f32_lit (35709662 / 1000000)"

definition fallback_lon_deg :: f32 where
  "fallback_lon_deg = f32_lit (139810793 / 1000000)"

text \<open>
  \<^verbatim>\<open>read_gps_data\<close>. \<open>data\<close> is the worker's persistent buffer, \<open>meas\<close> the shared
  store (\<^verbatim>\<open>measure\<close>). \<open>time_digit s i\<close> is \<^verbatim>\<open>utc_time[i] - '0'\<close>; the characters
  of the time string are unsigned, as \<^verbatim>\<open>char\<close> is on the ARM target. A conversion
  \<^verbatim>\<open>(int32_t)(..)\<close> that C leaves undefined makes the whole call a fault.
\<close>

definition time_digit :: "string \<Rightarrow> nat \<Rightarrow> int" where
  "time_digit s i = of_char (s ! i) - of_char (CHR ''0'')"

definition read_gps_data ::
  "int \<Rightarrow> gps_data_t \<Rightarrow> gps_data_t \<Rightarrow> system_measurement \<Rightarrow>
     fault + gps_data_t \<times> system_measurement" where
  "read_gps_data sem_ret mailbox data meas =
     (case gps_wait_for_gga (Some data) sem_ret mailbox of (ret, out) \<Rightarrow>
      if ret = 0 then
        (let d = the out;
             coords =
               (if f32_is_zero (lat d) \<and> f32_is_zero (lon d) \<and> f32_is_zero (alt d)
                then (f32_to_int32 (f32_mul fallback_lat_deg (f32_lit 1000000)),
                      f32_to_int32 (f32_mul fallback_lon_deg (f32_lit 1000000)),
                      f32_to_int32 (f32_mul (f32_of_int 100) (f32_lit 100)))
                else (f32_to_int32 (f32_mul (lat d) (f32_lit 1000000)),
                      f32_to_int32 (f32_mul (lon d) (f32_lit 1000000)),
                      f32_to_int32 (f32_mul (alt d) (f32_lit 100))));
             time_int =
               (if 6 \<le> length (utc_time d)
                then (let hh = time_digit (utc_time d) 0 * 10 + time_digit (utc_time d) 1 + 1;
                          mm = time_digit (utc_time d) 2 * 10 + time_digit (utc_time d) 3;
                          ss = time_digit (utc_time d) 4 * 10 + time_digit (utc_time d) 5
                      in hh * 10000 + mm * 100 + ss)
                else - 1)
         in case coords of
              (Inr la, Inr lo, Inr al) \<Rightarrow>
                Inr (d, meas \<lparr> gps_lat := word_of_int la, gps_lon := word_of_int lo,
                              gps_alt := word_of_int al, gps_sats := sats d,
                              gps_time := word_of_int time_int \<rparr>)
            | _ \<Rightarrow> Inl ConversionRange)
      else Inr (the out, meas))"

text \<open>
  A received record is in range when its three coordinates are finite and the scaled
  values the worker converts, degrees times 1000000 and metres times 100, stay within
  2000000000, hence within \<^verbatim>\<open>int32_t\<close>: at most 2000 degrees and 20000000 metres in
  magnitude.
\<close>

fun f32_within :: "f32 \<Rightarrow> rat \<Rightarrow> bool" where
  "f32_within (Fin a) b = (\<bar>a\<bar> \<le> b)"
| "f32_within _ b = False"

definition fix_in_range :: "gps_data_t \<Rightarrow> bool" where
  "fix_in_range d =
     (f32_within (lat d) 2000 \<and> f32_within (lon d) 2000 \<and> f32_within (alt d) 20000000)"

text \<open>
  Inputs used to evaluate the encoder: the store and the output record after a history
  in which no colour reading has succeeded yet, a store after a successful colour
  reading with the record the encoder produces from it, the output record left by an
  encoding of an earlier, different colour reading, and a store whose acceleration
  slots exercise the narrowing to one byte, with the record the encoder produces from it.
\<close>

definition unlit_store :: system_measurement where
  "unlit_store = scenario_store \<lparr> red := 0, green := 0, blue := 0, clear := 0 \<rparr>"

definition unlit_record :: main_measurement where
  "unlit_record =
     \<lparr> md_lat = 35709662, md_lon = 139810793, md_alt = 10000, md_time = [12, 34, 56],
       md_sats = 7, md_temp = 2550, md_hum = 6000, md_light = 500, md_moisture = 300,
       r_norm = 0, g_norm = 0, b_norm = 0, x_axis = 10, y_axis = 251, z_axis = 98 \<rparr>"

definition lit_store :: system_measurement where
  "lit_store = measure_init \<lparr> red := 50, green := 30, blue := 20, clear := 100 \<rparr>"

definition lit_record :: main_measurement where
  "lit_record = main_data_init \<lparr> r_norm := 50, g_norm := 30, b_norm := 20 \<rparr>"

definition earlier_record :: main_measurement where
  "earlier_record = main_data_init \<lparr> r_norm := 40, g_norm := 30, b_norm := 20 \<rparr>"

definition shaken_store :: system_measurement where
  "shaken_store = scenario_store \<lparr> accel_x := 1280, accel_y := - 55, accel_z := - 1290 \<rparr>"

definition shaken_record :: main_measurement where
  "shaken_record =
     \<lparr> md_lat = 35709662, md_lon = 139810793, md_alt = 10000, md_time = [12, 34, 56],
       md_sats = 7, md_temp = 2550, md_hum = 6000, md_light = 500, md_moisture = 300,
       r_norm = 50, g_norm = 30, b_norm = 20, x_axis = 128, y_axis = 251, z_axis = 127 \<rparr>"

text \<open>
  Inputs used to evaluate the GPS code: stand-ins for the two C library functions, the
  initial values of the worker's buffer and of the module's static variables, a parsed
  record with all-zero position, one without a time string together with the store the
  worker produces from it, and the module state just before the newline of the short line
  \<^verbatim>\<open>$GPGGA,1,2,N\<close> arrives.
\<close>

definition atof_zero :: "string \<Rightarrow> f32" where
  "atof_zero f = Fin 0"

definition atoi_zero :: "string \<Rightarrow> 32 word" where
  "atoi_zero f = 0"

definition gps_data_init :: gps_data_t where
  "gps_data_init =
     \<lparr> lat = Fin 0, lon = Fin 0, alt = Fin 0, sats = 0, hdop = Fin 0, utc_time = [] \<rparr>"

definition gps_module_init :: gps_module where
  "gps_module_init =
     \<lparr> nmea_line = replicate 128 (CHR 0x00), line_pos = 0,
       parsed_data = gps_data_init, parsed_sem = 0 \<rparr>"

definition zero_fix :: gps_data_t where
  "zero_fix =
     \<lparr> lat = Fin 0, lon = Fin 0, alt = Fin 0, sats = 5, hdop = Fin 1,
       utc_time = ''123456.00'' \<rparr>"

definition untimed_fix :: gps_data_t where
  "untimed_fix =
     \<lparr> lat = Fin (9360725 / 262144), lon = Fin (572665 / 4096), alt = Fin 40, sats = 5,
       hdop = Fin 1, utc_time = [] \<rparr>"

definition untimed_store :: system_measurement where
  "untimed_store =
     scenario_store \<lparr> gps_lat := 35708332, gps_lon := 139810784, gps_alt := 4000,
                      gps_sats := 5, gps_time := - 1 \<rparr>"

definition untimed_record :: main_measurement where
  "untimed_record =
     \<lparr> md_lat = 35708332, md_lon = 139810784, md_alt = 4000, md_time = [184, 72, 95],
       md_sats = 5, md_temp = 2550, md_hum = 6000, md_light = 500, md_moisture = 300,
       r_norm = 50, g_norm = 30, b_norm = 20, x_axis = 10, y_axis = 251, z_axis = 98 \<rparr>"

definition short_line_state :: gps_module where
  "short_line_state =
     \<lparr> nmea_line = ''$GPGGA,1,2,N'' @ replicate 116 (CHR 0x00), line_pos = 12,
       parsed_data = zero_fix, parsed_sem = 0 \<rparr>"

text \<open>
  The module state when a complete \<^verbatim>\<open>$GPGGA\<close> sentence with the latitude field
  \<^verbatim>\<open>3542.5000\<close> is in the buffer and its newline is about to arrive.
\<close>

definition sample_state :: gps_module where
  "sample_state =
     \<lparr> nmea_line = ''$GPGGA,123456.00,3542.5000,N,13948.6476,E,1,08,0.9,545.4,M,46.9,M,,*47''
                     @ replicate 58 (CHR 0x00),
       line_pos = 70, parsed_data = gps_data_init, parsed_sem = 0 \<rparr>"

text \<open>
  The coordinate format of the claim about the conversion: a field \<^verbatim>\<open>DDMM.MMMM\<close> or
  \<^verbatim>\<open>DDDMM.MMMM\<close> written from its decimal digits, and the value the specification
  assigns to it: the integer part without its last two digits as degrees, plus the
  remaining minutes (with their fraction) divided by 60, negated for the southern and
  western hemispheres.
\<close>

definition digit_char :: "nat \<Rightarrow> char" where
  "digit_char d = char_of (48 + d)"

definition coord_text :: "nat list \<Rightarrow> nat list \<Rightarrow> string" where
  "coord_text ds fs = map digit_char ds @ CHR ''.'' # map digit_char fs"

definition digits_value :: "nat list \<Rightarrow> nat" where
  "digits_value ds = foldl (\<lambda>a d. 10 * a + d) 0 ds"

definition exact_degrees :: "nat list \<Rightarrow> nat list \<Rightarrow> rat" where
  "exact_degrees ds fs =
     of_nat (digits_value ds div 100)
       + (of_nat (digits_value ds mod 100) + of_nat (digits_value fs) / 10 ^ length fs) / 60"

definition hemisphere_sign :: "char \<Rightarrow> rat" where
  "hemisphere_sign dir = (if dir = CHR ''S'' \<or> dir = CHR ''W'' then - 1 else 1)"

section \<open>Properties of the encoder\<close>

lemma norm_channel_no_div0: "clr \<noteq> 0 \<Longrightarrow> norm_channel ch clr \<noteq> Inl DivisionByZero"
  by (simp add: norm_channel_def)

lemma narrow_int8: "sint (word_of_int k :: 8 word) = (k + 128) mod 256 - 128"
  by (simp add: int_word_sint)

text \<open>
  C2, as stated, fails: on the scenario store the encoder emits the time bytes
  [12, 34, 56]. The encoder only splits the stored HHMMSS integer; it adds no hour, so
  the stored 123456 does not come out as [13, 34, 56].
\<close>

theorem C2_time_bytes_counterexample:
  "map_sum id md_time (get_measurements scenario_store main_data_init) = Inr [12, 34, 56] \<and>
   map_sum id md_time (get_measurements scenario_store main_data_init) \<noteq> Inr [13, 34, 56]"
  by (simp add: get_measurements_def norm_channel_def Let_def scenario_store_def
      main_data_init_def)

text \<open>
  C2 (amended): for the scenario store, whatever the output record held before, one
  encoder invocation returns a record whose time bytes are [12, 34, 56], whose colour
  bytes are (50, 30, 20) and whose acceleration bytes, read as signed, are (10, -5, 98).
\<close>

theorem C2_scenario_encoding:
  "\<exists>r. get_measurements scenario_store main_data = Inr r \<and>
       md_time r = [12, 34, 56] \<and>
       (r_norm r, g_norm r, b_norm r) = (50, 30, 20) \<and>
       (sint (x_axis r), sint (y_axis r), sint (z_axis r)) = (10, - 5, 98)"
  by (simp add: get_measurements_def norm_channel_def Let_def scenario_store_def
      signed_divide_int_def)

text \<open>
  A 16-bit reading widened to a store slot is non-negative and small, so the products
  \<^verbatim>\<open>channel * 100\<close> of the encoder do not overflow; with the colour slots in range
  the encoder returns a record. The invariant holds initially and is kept by every
  event, so every history runs to its end without a fault.
\<close>

lemma sint_ucast16: "sint (ucast (w :: 16 word) :: 32 word) = uint w"
proof -
  have "uint w < 65536" using uint_lt2p [of w] by simp
  moreover have "0 \<le> uint w" by simp
  ultimately have "- 2147483648 \<le> uint w" "uint w < 2147483648" by linarith+
  then have "- (2 ^ 31) \<le> uint w" "uint w < 2 ^ 31" by simp_all
  then show ?thesis by (simp add: signed_ucast_eq signed_take_bit_int_eq_self)
qed

lemma ucast16_range: "\<bar>sint (ucast (w :: 16 word) :: 32 word)\<bar> \<le> 21474836"
proof -
  have "uint w < 65536" using uint_lt2p [of w] by simp
  moreover have "0 \<le> uint w" by simp
  ultimately show ?thesis unfolding sint_ucast16 by linarith
qed

lemma ucast16_zero: "(ucast (w :: 16 word) :: 32 word) = 0 \<longleftrightarrow> w = 0"
  by (metis ucast_0 sint_ucast16 sint_0 uint_0_iff)

lemma norm_channel_total:
  "\<bar>sint ch\<bar> \<le> 21474836 \<Longrightarrow> clr \<noteq> 0 \<Longrightarrow> \<exists>b. norm_channel ch clr = Inr b"
  by (simp add: norm_channel_def) linarith

lemma get_measurements_total:
  assumes "colour_in_range meas"
  shows "\<exists>r. get_measurements meas main_data = Inr r"
proof (cases "clear meas = 0")
  case True
  then show ?thesis by (simp add: get_measurements_def Let_def)
next
  case False
  from assms norm_channel_total [OF _ False]
  obtain r g b where "norm_channel (red meas) (clear meas) = Inr r"
    "norm_channel (green meas) (clear meas) = Inr g"
    "norm_channel (blue meas) (clear meas) = Inr b"
    unfolding colour_in_range_def by blast
  then show ?thesis using False by (simp add: get_measurements_def Let_def word_greater_zero_iff)
qed

lemma read_color_sensor_inv:
  "colour_in_range meas \<Longrightarrow>
     colour_in_range (read_color_sensor ret buf meas) \<and>
     (clear (read_color_sensor ret buf meas) = 0 \<longrightarrow> clear meas = 0)"
  by (auto simp: read_color_sensor_def color_read_rgb_def Let_def colour_in_range_def
      ucast16_range ucast16_zero)

lemma get_measurements_colours:
  assumes "get_measurements meas main_data = Inr r"
  shows "clear meas = 0 \<longrightarrow>
    r_norm r = r_norm main_data \<and> g_norm r = g_norm main_data \<and> b_norm r = b_norm main_data"
  using assms by (auto simp: get_measurements_def Let_def)

lemma apply_event_inv:
  assumes "colour_invariant s"
  shows "\<exists>s'. apply_event e s = Inr s' \<and> colour_invariant s'"
proof -
  obtain meas main_data where s: "s = (meas, main_data)" by (cases s)
  from assms have cr: "colour_in_range meas"
    and z: "clear meas = 0 \<longrightarrow>
      r_norm main_data = 0 \<and> g_norm main_data = 0 \<and> b_norm main_data = 0"
    by (simp_all add: colour_invariant_def s)
  show ?thesis
  proof (cases e)
    case (ColourRead ret buf)
    with read_color_sensor_inv [OF cr, of ret buf] z show ?thesis
      by (auto simp: s colour_invariant_def)
  next
    case (OtherWrite w)
    with cr z show ?thesis
      by (simp add: s colour_invariant_def write_other_def colour_in_range_def)
  next
    case Encode
    from get_measurements_total [OF cr] obtain r where r: "get_measurements meas main_data = Inr r"
      by blast
    with get_measurements_colours [OF r] z Encode cr show ?thesis
      by (simp add: s colour_invariant_def)
  qed
qed

lemma run_events_inv:
  "colour_invariant s \<Longrightarrow> \<exists>s'. run_events es s = Inr s' \<and> colour_invariant s'"
proof (induction es arbitrary: s)
  case Nil
  then show ?case by simp
next
  case (Cons e es)
  from apply_event_inv [OF Cons.prems, of e] obtain s1 where
    "apply_event e s = Inr s1" "colour_invariant s1" by blast
  with Cons.IH [of s1] show ?case by simp
qed

lemma init_inv: "colour_invariant (measure_init, main_data_init)"
  by (simp add: colour_invariant_def colour_in_range_def measure_init_def main_data_init_def)

lemma encoding_determined:
  "(clear meas \<noteq> 0 \<longrightarrow> get_measurements meas d1 = get_measurements meas d2) \<and>
   (r_norm d1 = r_norm d2 \<and> g_norm d1 = g_norm d2 \<and> b_norm d1 = b_norm d2 \<longrightarrow>
      get_measurements meas d1 = get_measurements meas d2)"
  by (simp add: get_measurements_def Let_def word_greater_zero_iff split: sum.splits)

lemma no_division_by_zero: "get_measurements meas main_data \<noteq> Inl DivisionByZero"
  by (auto simp: get_measurements_def Let_def word_greater_zero_iff
      norm_channel_no_div0 split: sum.splits)

text \<open>
  C3: the encoder never divides by zero, and every history of colour readings, other
  store writes and encodings from the initial state runs without a fault to a state
  such that, when the clear slot of the store is zero there, the encoder returns a
  record with 0 in all three colour bytes. (The colour bytes of the output record are
  only assigned inside \<^verbatim>\<open>if (clear > 0)\<close>; a store with a zero clear slot occurs only
  before the first successful colour reading, when the record still holds its initial
  zeros.)
\<close>

theorem C3_clear_zero_gives_zero_colours:
  "get_measurements meas main_data \<noteq> Inl DivisionByZero \<and>
   (\<exists>m d. run_events es (measure_init, main_data_init) = Inr (m, d) \<and>
      (clear m = 0 \<longrightarrow>
         (\<exists>r. get_measurements m d = Inr r \<and> r_norm r = 0 \<and> g_norm r = 0 \<and> b_norm r = 0)))"
proof -
  from run_events_inv [OF init_inv, of es] obtain m d where
    run: "run_events es (measure_init, main_data_init) = Inr (m, d)"
    and inv: "colour_invariant (m, d)"
    by (metis surj_pair)
  from inv have cr: "colour_in_range m"
    and z: "clear m = 0 \<longrightarrow> r_norm d = 0 \<and> g_norm d = 0 \<and> b_norm d = 0"
    by (simp_all add: colour_invariant_def)
  from get_measurements_total [OF cr] obtain r where r: "get_measurements m d = Inr r" by blast
  from get_measurements_colours [OF r] z
  have "clear m = 0 \<longrightarrow> r_norm r = 0 \<and> g_norm r = 0 \<and> b_norm r = 0" by simp
  with run r no_division_by_zero show ?thesis by blast
qed

theorem C3_clear_zero_gives_zero_colours_witness:
  "run_events [OtherWrite scenario_store, Encode, ColourRead (- 5) [100, 0, 50, 0, 30, 0, 20, 0]]
     (measure_init, main_data_init) = Inr (unlit_store, unlit_record) \<and>
   clear unlit_store = 0 \<and>
   get_measurements unlit_store unlit_record \<noteq> Inl DivisionByZero \<and>
   (\<exists>r. get_measurements unlit_store unlit_record = Inr r \<and>
        r_norm r = 0 \<and> g_norm r = 0 \<and> b_norm r = 0)"
proof -
  let ?es = "[OtherWrite scenario_store, Encode, ColourRead (- 5) [100, 0, 50, 0, 30, 0, 20, 0]]"
  have run: "run_events ?es (measure_init, main_data_init) = Inr (unlit_store, unlit_record)"
    by (simp add: write_other_def get_measurements_def Let_def read_color_sensor_def
        color_read_rgb_def measure_init_def main_data_init_def scenario_store_def
        unlit_store_def unlit_record_def signed_divide_int_def)
  have z: "clear unlit_store = 0" by (simp add: unlit_store_def)
  from C3_clear_zero_gives_zero_colours [of unlit_store unlit_record ?es] run z
  show ?thesis by simp
qed

text \<open>
  C4: any two histories from the initial state run without a fault, and when they end
  with identical store contents the encoder returns the same record after both,
  whatever encodings and store contents came earlier in either history.
\<close>

theorem C4_same_store_same_record:
  "\<exists>m1 d1 m2 d2.
     run_events es1 (measure_init, main_data_init) = Inr (m1, d1) \<and>
     run_events es2 (measure_init, main_data_init) = Inr (m2, d2) \<and>
     (m1 = m2 \<longrightarrow> (\<exists>r. get_measurements m1 d1 = Inr r \<and> get_measurements m2 d2 = Inr r))"
proof -
  from run_events_inv [OF init_inv, of es1] obtain m1 d1 where
    run1: "run_events es1 (measure_init, main_data_init) = Inr (m1, d1)"
    and inv1: "colour_invariant (m1, d1)"
    by (metis surj_pair)
  from run_events_inv [OF init_inv, of es2] obtain m2 d2 where
    run2: "run_events es2 (measure_init, main_data_init) = Inr (m2, d2)"
    and inv2: "colour_invariant (m2, d2)"
    by (metis surj_pair)
  have "\<exists>r. get_measurements m1 d1 = Inr r \<and> get_measurements m2 d2 = Inr r" if eq: "m1 = m2"
  proof -
    from inv1 have cr: "colour_in_range m1" by (simp add: colour_invariant_def)
    from get_measurements_total [OF cr] obtain r where r: "get_measurements m1 d1 = Inr r"
      by blast
    have "get_measurements m1 d1 = get_measurements m1 d2"
    proof (cases "clear m1 = 0")
      case True
      with inv1 inv2 eq
      have "r_norm d1 = r_norm d2 \<and> g_norm d1 = g_norm d2 \<and> b_norm d1 = b_norm d2"
        by (simp add: colour_invariant_def)
      with encoding_determined [of m1 d1 d2] show ?thesis by blast
    next
      case False
      with encoding_determined [of m1 d1 d2] show ?thesis by blast
    qed
    with r have "get_measurements m1 d2 = Inr r" by simp
    with r eq show ?thesis by blast
  qed
  with run1 run2 show ?thesis by blast
qed

theorem C4_same_store_same_record_witness:
  "run_events [ColourRead 0 [100, 0, 50, 0, 30, 0, 20, 0]] (measure_init, main_data_init)
     = Inr (lit_store, main_data_init) \<and>
   run_events [ColourRead 0 [200, 0, 80, 0, 60, 0, 40, 0], Encode,
               ColourRead 0 [100, 0, 50, 0, 30, 0, 20, 0]] (measure_init, main_data_init)
     = Inr (lit_store, earlier_record) \<and>
   earlier_record \<noteq> main_data_init \<and>
   get_measurements lit_store main_data_init = Inr lit_record \<and>
   get_measurements lit_store earlier_record = Inr lit_record"
proof -
  let ?es1 = "[ColourRead 0 [100, 0, 50, 0, 30, 0, 20, 0]]"
  let ?es2 = "[ColourRead 0 [200, 0, 80, 0, 60, 0, 40, 0], Encode,
               ColourRead 0 [100, 0, 50, 0, 30, 0, 20, 0]]"
  have run1: "run_events ?es1 (measure_init, main_data_init) = Inr (lit_store, main_data_init)"
    by (simp add: read_color_sensor_def color_read_rgb_def Let_def measure_init_def lit_store_def)
  have run2: "run_events ?es2 (measure_init, main_data_init) = Inr (lit_store, earlier_record)"
    by (simp add: read_color_sensor_def color_read_rgb_def Let_def measure_init_def lit_store_def
        get_measurements_def norm_channel_def main_data_init_def earlier_record_def)
  have ne: "earlier_record \<noteq> main_data_init"
    by (simp add: earlier_record_def main_data_init_def)
  have e1: "get_measurements lit_store main_data_init = Inr lit_record"
    by (simp add: get_measurements_def norm_channel_def Let_def lit_store_def measure_init_def
        main_data_init_def lit_record_def)
  from C4_same_store_same_record [of ?es1 ?es2] run1 run2 e1
  have "get_measurements lit_store earlier_record = Inr lit_record" by simp
  with run1 run2 ne e1 show ?thesis by simp
qed

text \<open>
  C7: for every store whose colour slots are in range (as every sensor reading is),
  whatever the acceleration slots and the output record hold, the encoder returns a
  record, and each acceleration byte of it, read as a signed 8-bit value, is the
  stored slot value divided by 10 (C division, truncating towards zero) and reduced
  modulo 256 into [-128, 127]; nothing saturates.
\<close>

theorem C7_acceleration_wraps:
  assumes "colour_in_range meas"
  shows "\<exists>r. get_measurements meas main_data = Inr r \<and>
     sint (x_axis r) = (sint (accel_x meas) sdiv 10 + 128) mod 256 - 128 \<and>
     sint (y_axis r) = (sint (accel_y meas) sdiv 10 + 128) mod 256 - 128 \<and>
     sint (z_axis r) = (sint (accel_z meas) sdiv 10 + 128) mod 256 - 128"
proof -
  from get_measurements_total [OF assms] obtain r where
    r: "get_measurements meas main_data = Inr r" by blast
  then have "sint (x_axis r) = (sint (accel_x meas) sdiv 10 + 128) mod 256 - 128 \<and>
     sint (y_axis r) = (sint (accel_y meas) sdiv 10 + 128) mod 256 - 128 \<and>
     sint (z_axis r) = (sint (accel_z meas) sdiv 10 + 128) mod 256 - 128"
    by (auto simp: get_measurements_def Let_def narrow_int8 split: sum.splits if_splits)
  with r show ?thesis by blast
qed

theorem C7_acceleration_wraps_witness:
  "colour_in_range shaken_store \<and>
   get_measurements shaken_store main_data_init = Inr shaken_record \<and>
   sint (accel_x shaken_store) sdiv 10 = 128 \<and> sint (x_axis shaken_record) = - 128 \<and>
   sint (accel_y shaken_store) sdiv 10 = - 5 \<and> sint (y_axis shaken_record) = - 5 \<and>
   sint (accel_z shaken_store) sdiv 10 = - 129 \<and> sint (z_axis shaken_record) = 127"
proof -
  have c: "colour_in_range shaken_store"
    by (simp add: colour_in_range_def shaken_store_def scenario_store_def)
  have e: "get_measurements shaken_store main_data_init = Inr shaken_record"
    by (simp add: get_measurements_def norm_channel_def Let_def shaken_store_def
        scenario_store_def main_data_init_def shaken_record_def signed_divide_int_def)
  have q: "sint (accel_x shaken_store) sdiv 10 = 128"
    "sint (accel_y shaken_store) sdiv 10 = - 5"
    "sint (accel_z shaken_store) sdiv 10 = - 129"
    by (simp_all add: shaken_store_def scenario_store_def signed_divide_int_def)
  from C7_acceleration_wraps [OF c, of main_data_init] e q c show ?thesis by simp
qed

section \<open>Properties of the reassembler and the parser\<close>

lemma count_after_comma:
  "CHR '','' \<in> set s \<Longrightarrow>
     count_list s (CHR '','')
       = Suc (count_list (tl (dropWhile (\<lambda>c. c \<noteq> CHR '','') s)) (CHR '',''))"
  by (induction s) auto

lemma length_split_fields: "length (split_fields n s) \<le> Suc (count_list s (CHR '',''))"
proof (induction n arbitrary: s)
  case 0
  show ?case by simp
next
  case (Suc n)
  show ?case
  proof (cases "CHR '','' \<in> set s")
    case True
    from Suc.IH [of "tl (dropWhile (\<lambda>c. c \<noteq> CHR '','') s)"] count_after_comma [OF True]
    show ?thesis using True by simp
  next
    case False
    then show ?thesis by simp
  qed
qed

lemma takeWhile_no_comma: "CHR '','' \<notin> set s \<Longrightarrow> takeWhile (\<lambda>c. c \<noteq> CHR '','') s = s"
  by (induction s) auto

lemma split_fields_first: "split_fields (Suc n) s ! 0 = takeWhile (\<lambda>c. c \<noteq> CHR '','') s"
  by (simp add: takeWhile_no_comma)

lemma split_fields_nonempty: "split_fields n s \<noteq> []"
  by (cases n) auto

lemma parse_gga_rejects:
  assumes "\<not> strstr (takeWhile (\<lambda>c. c \<noteq> CHR '','') (take (BUF_SIZE - 1) (cstr line))) ''GGA'' \<or>
           count_list (take (BUF_SIZE - 1) (cstr line)) (CHR '','') < 5"
  shows "parse_gga atof atoi line = Inr None"
proof -
  let ?buf = "take (BUF_SIZE - 1) (cstr line)"
  let ?flds = "split_fields (MAX_FIELDS - 1) ?buf"
  have m: "MAX_FIELDS - 1 = Suc 14" by (simp add: MAX_FIELDS_def)
  have f0: "field_at ?flds 0 = Some (takeWhile (\<lambda>c. c \<noteq> CHR '','') ?buf)"
    unfolding m field_at_def
    using split_fields_nonempty [of "Suc 14" ?buf] split_fields_first [of 14 ?buf]
    by (simp del: split_fields.simps)
  from assms show ?thesis
  proof
    assume "\<not> strstr (takeWhile (\<lambda>c. c \<noteq> CHR '','') ?buf) ''GGA''"
    with f0 show ?thesis by (simp add: parse_gga_def Let_def)
  next
    assume "count_list ?buf (CHR '','') < 5"
    with length_split_fields [of "MAX_FIELDS - 1" ?buf] have "length ?flds \<le> 5" by simp
    then have "field_at ?flds 5 = None" by (simp add: field_at_def)
    then show ?thesis by (simp add: parse_gga_def Let_def)
  qed
qed

lemma cstr_idem: "cstr (cstr b) = cstr b"
  by (simp add: cstr_def)

lemma cstr_prefix_nul: "cstr (a @ CHR 0x00 # b) = cstr a"
  by (induction a) (auto simp: cstr_def)

lemma candidate_line_eq:
  "line_pos s < length (nmea_line s) \<Longrightarrow>
     candidate_line s = cstr (take (line_pos s) (nmea_line s))"
  by (simp add: candidate_line_def terminate_line_def upd_conv_take_nth_drop cstr_prefix_nul)

text \<open>
  C5: when the newline arrives and the candidate line then in the buffer has a field 0
  without the marker \<^verbatim>\<open>GGA\<close>, or holds fewer than five commas (fewer than six
  comma-separated fields), \<^verbatim>\<open>parse_gga\<close> returns false on it and the interrupt
  routine leaves the mailbox \<^verbatim>\<open>parsed_data\<close> and the semaphore count as they were.
\<close>

theorem C5_malformed_not_published:
  assumes "\<not> strstr (takeWhile (\<lambda>c. c \<noteq> CHR '','')
                 (take (BUF_SIZE - 1) (candidate_line (store_byte (CHR 0x0A) s)))) ''GGA'' \<or>
           count_list (take (BUF_SIZE - 1) (candidate_line (store_byte (CHR 0x0A) s))) (CHR '','') < 5"
  shows "parse_gga atof atoi (candidate_line (store_byte (CHR 0x0A) s)) = Inr None \<and>
         (\<exists>s'. uart_isr_byte atof atoi (CHR 0x0A) s = Inr s' \<and>
               parsed_data s' = parsed_data s \<and> parsed_sem s' = parsed_sem s)"
proof -
  let ?l = "candidate_line (store_byte (CHR 0x0A) s)"
  have r: "parse_gga atof atoi ?l = Inr None"
    using assms by (intro parse_gga_rejects) (simp add: candidate_line_def cstr_idem)
  have r2: "parse_gga atof atoi (nmea_line (terminate_line (store_byte (CHR 0x0A) s))) = Inr None"
    using assms by (intro parse_gga_rejects) (simp add: candidate_line_def)
  have "\<exists>s'. uart_isr_byte atof atoi (CHR 0x0A) s = Inr s' \<and>
        parsed_data s' = parsed_data s \<and> parsed_sem s' = parsed_sem s"
    using r2 by (simp add: uart_isr_byte_def Let_def terminate_line_def store_byte_def)
  with r show ?thesis by simp
qed

theorem C5_malformed_not_published_witness:
  "candidate_line (store_byte (CHR 0x0A) short_line_state) = ''$GPGGA,1,2,N'' @ [CHR 0x0A] \<and>
   count_list (take (BUF_SIZE - 1) (candidate_line (store_byte (CHR 0x0A) short_line_state)))
     (CHR '','') < 5 \<and>
   parse_gga atof_zero atoi_zero (candidate_line (store_byte (CHR 0x0A) short_line_state))
     = Inr None \<and>
   (\<exists>s'. uart_isr_byte atof_zero atoi_zero (CHR 0x0A) short_line_state = Inr s' \<and>
         parsed_data s' = zero_fix \<and> parsed_sem s' = 0)"
proof -
  have l: "candidate_line (store_byte (CHR 0x0A) short_line_state) = ''$GPGGA,1,2,N'' @ [CHR 0x0A]"
    by code_simp
  have h: "count_list (take (BUF_SIZE - 1) (candidate_line (store_byte (CHR 0x0A) short_line_state)))
             (CHR '','') < 5"
    by (simp add: l BUF_SIZE_def)
  from C5_malformed_not_published [of short_line_state atof_zero atoi_zero] h l
  show ?thesis by (simp add: short_line_state_def)
qed

lemma uart_isr_no_newline:
  "CHR 0x0A \<notin> set bs \<Longrightarrow>
     uart_isr atof atoi bs s = Inr (foldl (\<lambda>t c. store_byte c t) s bs)"
  by (induction bs arbitrary: s) (auto simp: uart_isr_byte_def)

lemma store_byte_frame:
  "length (nmea_line (store_byte c s)) = length (nmea_line s) \<and>
   parsed_data (store_byte c s) = parsed_data s \<and> parsed_sem (store_byte c s) = parsed_sem s"
  by (simp add: store_byte_def)

lemma store_bytes_frame:
  "length (nmea_line (foldl (\<lambda>t c. store_byte c t) s bs)) = length (nmea_line s) \<and>
   parsed_data (foldl (\<lambda>t c. store_byte c t) s bs) = parsed_data s \<and>
   parsed_sem (foldl (\<lambda>t c. store_byte c t) s bs) = parsed_sem s"
  by (induction bs arbitrary: s) (simp_all add: store_byte_frame)

lemma take_exact: "length a = n \<Longrightarrow> take n (a @ zs) = a"
  by simp

text \<open>
  Bytes without a start marker are appended behind what the buffer holds, up to the
  capacity of \<^verbatim>\<open>BUF_SIZE - 1\<close> bytes.
\<close>

lemma store_bytes_accumulate:
  assumes "CHR ''$'' \<notin> set ys" "line_pos s \<le> BUF_SIZE - 1" "length (nmea_line s) = BUF_SIZE"
    and "s' = foldl (\<lambda>t c. store_byte c t) s ys"
  shows "line_pos s' = min (line_pos s + length ys) (BUF_SIZE - 1) \<and>
         take (line_pos s') (nmea_line s')
           = take (BUF_SIZE - 1) (take (line_pos s) (nmea_line s) @ ys)"
  using assms
proof (induction ys arbitrary: s)
  case Nil
  then show ?case by (simp add: min_def)
next
  case (Cons c ys)
  let ?s1 = "store_byte c s"
  from Cons.prems have c: "c \<noteq> CHR ''$''" and ys: "CHR ''$'' \<notin> set ys" by auto
  from Cons.prems have s': "s' = foldl (\<lambda>t c. store_byte c t) ?s1 ys" by simp
  show ?case
  proof (cases "line_pos s < BUF_SIZE - 1")
    case True
    with c have lp: "line_pos ?s1 = Suc (line_pos s)"
      and nl: "nmea_line ?s1 = (nmea_line s)[line_pos s := c]"
      by (simp_all add: store_byte_def)
    from True Cons.prems have lt: "line_pos s < length (nmea_line s)"
      by (simp add: BUF_SIZE_def)
    have tk: "take (line_pos ?s1) (nmea_line ?s1) = take (line_pos s) (nmea_line s) @ [c]"
      using lt by (simp add: lp nl take_Suc_conv_app_nth)
    have b1: "line_pos ?s1 \<le> BUF_SIZE - 1" using True lp by simp
    have b2: "length (nmea_line ?s1) = BUF_SIZE" using Cons.prems nl by simp
    from Cons.IH [OF ys b1 b2 s']
    have ih1: "line_pos s' = min (line_pos ?s1 + length ys) (BUF_SIZE - 1)"
      and ih2: "take (line_pos s') (nmea_line s')
                  = take (BUF_SIZE - 1) (take (line_pos ?s1) (nmea_line ?s1) @ ys)"
      by blast+
    have e1: "line_pos ?s1 + length ys = line_pos s + length (c # ys)" by (simp add: lp)
    have e2: "take (line_pos ?s1) (nmea_line ?s1) @ ys = take (line_pos s) (nmea_line s) @ c # ys"
      by (simp only: tk append_assoc append_Cons append_Nil)
    from ih1 ih2 show ?thesis by (simp only: e1 e2)
  next
    case False
    with c have same: "?s1 = s" by (simp add: store_byte_def)
    from False Cons.prems have full: "line_pos s = BUF_SIZE - 1" by simp
    then have len: "length (take (line_pos s) (nmea_line s)) = BUF_SIZE - 1"
      using Cons.prems by (simp add: BUF_SIZE_def)
    from s' same have s'': "s' = foldl (\<lambda>t c. store_byte c t) s ys" by simp
    from Cons.IH [OF ys Cons.prems(2) Cons.prems(3) s'']
    have ih1: "line_pos s' = min (line_pos s + length ys) (BUF_SIZE - 1)"
      and ih2: "take (line_pos s') (nmea_line s')
                  = take (BUF_SIZE - 1) (take (line_pos s) (nmea_line s) @ ys)"
      by blast+
    have e1: "min (line_pos s + length ys) (BUF_SIZE - 1)
                = min (line_pos s + length (c # ys)) (BUF_SIZE - 1)"
      using full by simp
    have e2: "take (BUF_SIZE - 1) (take (line_pos s) (nmea_line s) @ zs)
                = take (line_pos s) (nmea_line s)" for zs
      using len by (rule take_exact)
    from ih1 ih2 show ?thesis unfolding e1 e2 by simp
  qed
qed

text \<open>
  C6: from any state of the module (so after any bytes received before), a stream that
  holds a start marker, bytes \<open>xs\<close> without newline, a second start marker and bytes
  \<open>ys\<close> without newline or start marker is consumed without fault and
  leaves in the buffer the second marker followed by \<open>ys\<close> and nothing of \<open>xs\<close> (at
  most the \<^verbatim>\<open>BUF_SIZE - 1\<close> bytes the buffer takes); the candidate line formed when
  the newline arrives next is that second line; the mailbox is untouched.
\<close>

theorem C6_second_start_marker_restarts:
  assumes "CHR 0x0A \<notin> set xs" "CHR 0x0A \<notin> set ys" "CHR ''$'' \<notin> set ys"
    and "length (nmea_line s) = BUF_SIZE"
  shows "\<exists>s'. uart_isr atof atoi (CHR ''$'' # xs @ CHR ''$'' # ys) s = Inr s' \<and>
           line_pos s' = min (Suc (length ys)) (BUF_SIZE - 1) \<and>
           take (line_pos s') (nmea_line s') = take (BUF_SIZE - 1) (CHR ''$'' # ys) \<and>
           candidate_line (store_byte (CHR 0x0A) s')
             = cstr (take (BUF_SIZE - 1) (CHR ''$'' # ys @ [CHR 0x0A])) \<and>
           parsed_data s' = parsed_data s \<and> parsed_sem s' = parsed_sem s"
proof -
  define s1 where "s1 = foldl (\<lambda>t c. store_byte c t) s (CHR ''$'' # xs)"
  define s2 where "s2 = store_byte (CHR ''$'') s1"
  define s3 where "s3 = foldl (\<lambda>t c. store_byte c t) s2 ys"
  define s4 where "s4 = foldl (\<lambda>t c. store_byte c t) s2 (ys @ [CHR 0x0A])"
  have nl: "CHR 0x0A \<notin> set (CHR ''$'' # xs @ CHR ''$'' # ys)" using assms by simp
  have "foldl (\<lambda>t c. store_byte c t) s (CHR ''$'' # xs @ CHR ''$'' # ys) = s3"
    by (simp add: s1_def s2_def s3_def)
  with uart_isr_no_newline [OF nl, of atof atoi s]
  have run: "uart_isr atof atoi (CHR ''$'' # xs @ CHR ''$'' # ys) s = Inr s3"
    by (simp only:)
  have f1: "length (nmea_line s1) = BUF_SIZE \<and> parsed_data s1 = parsed_data s \<and>
            parsed_sem s1 = parsed_sem s"
    using store_bytes_frame [of s "CHR ''$'' # xs"] assms(4) by (simp only: s1_def)
  have f2: "length (nmea_line s2) = BUF_SIZE \<and> parsed_data s2 = parsed_data s \<and>
            parsed_sem s2 = parsed_sem s"
    using store_byte_frame [of "CHR ''$''" s1] f1 by (simp only: s2_def)
  have f3: "length (nmea_line s3) = BUF_SIZE \<and> parsed_data s3 = parsed_data s \<and>
            parsed_sem s3 = parsed_sem s"
    using store_bytes_frame [of s2 ys] f2 by (simp only: s3_def)
  have lp2: "line_pos s2 = 1" by (simp add: s2_def store_byte_def)
  have "0 < length (nmea_line s1)" using f1 by (simp add: BUF_SIZE_def)
  then have tk2: "take 1 (nmea_line s2) = [CHR ''$'']"
    by (simp add: s2_def store_byte_def take_Suc_conv_app_nth)
  have b2: "line_pos s2 \<le> BUF_SIZE - 1" by (simp add: lp2 BUF_SIZE_def)
  from f2 have len2: "length (nmea_line s2) = BUF_SIZE" by blast
  from store_bytes_accumulate [OF assms(3) b2 len2 s3_def,
      unfolded lp2 tk2 append_Cons append_Nil plus_1_eq_Suc]
  have acc: "line_pos s3 = min (Suc (length ys)) (BUF_SIZE - 1) \<and>
        take (line_pos s3) (nmea_line s3) = take (BUF_SIZE - 1) (CHR ''$'' # ys)"
    .
  have d4: "CHR ''$'' \<notin> set (ys @ [CHR 0x0A])" using assms(3) by simp
  from store_bytes_accumulate [OF d4 b2 len2 s4_def, unfolded lp2 tk2 append_Cons append_Nil]
  have acc4': "line_pos s4 = min (1 + length (ys @ [CHR 0x0A])) (BUF_SIZE - 1) \<and>
        take (line_pos s4) (nmea_line s4) = take (BUF_SIZE - 1) (CHR ''$'' # ys @ [CHR 0x0A])"
    .
  then have acc4: "line_pos s4 \<le> BUF_SIZE - 1 \<and>
        take (line_pos s4) (nmea_line s4) = take (BUF_SIZE - 1) (CHR ''$'' # ys @ [CHR 0x0A])"
    by (metis min.cobounded2)
  have s4: "s4 = store_byte (CHR 0x0A) s3" by (simp add: s4_def s3_def)
  have "length (nmea_line s4) = BUF_SIZE"
    using store_byte_frame [of "CHR 0x0A" s3] f3 by (simp only: s4)
  with acc4 have "line_pos s4 < length (nmea_line s4)" by (simp add: BUF_SIZE_def)
  from candidate_line_eq [OF this] acc4
  have cand: "candidate_line (store_byte (CHR 0x0A) s3)
                = cstr (take (BUF_SIZE - 1) (CHR ''$'' # ys @ [CHR 0x0A]))"
    by (simp only: s4)
  from run acc cand f3 show ?thesis by blast
qed

theorem C6_second_start_marker_restarts_witness:
  "CHR 0x0A \<notin> set ''GPGGA,12'' \<and> CHR 0x0A \<notin> set ''GNGGA,1'' \<and> CHR ''$'' \<notin> set ''GNGGA,1'' \<and>
   length (nmea_line gps_module_init) = BUF_SIZE \<and>
   (\<exists>s'. uart_isr atof_zero atoi_zero (CHR ''$'' # ''GPGGA,12'' @ CHR ''$'' # ''GNGGA,1'')
            gps_module_init = Inr s' \<and>
         line_pos s' = 8 \<and> take (line_pos s') (nmea_line s') = ''$GNGGA,1'' \<and>
         candidate_line (store_byte (CHR 0x0A) s') = ''$GNGGA,1'' @ [CHR 0x0A] \<and>
         parsed_data s' = gps_data_init \<and> parsed_sem s' = 0)"
proof -
  have h: "CHR 0x0A \<notin> set ''GPGGA,12''" "CHR 0x0A \<notin> set ''GNGGA,1''"
    "CHR ''$'' \<notin> set ''GNGGA,1''" "length (nmea_line gps_module_init) = BUF_SIZE"
    by (simp_all add: gps_module_init_def BUF_SIZE_def)
  from C6_second_start_marker_restarts [OF h, of atof_zero atoi_zero]
  obtain s' where
    run: "uart_isr atof_zero atoi_zero (CHR ''$'' # ''GPGGA,12'' @ CHR ''$'' # ''GNGGA,1'')
            gps_module_init = Inr s'"
    and lp: "line_pos s' = min (Suc (length ''GNGGA,1'')) (BUF_SIZE - 1)"
    and tk: "take (line_pos s') (nmea_line s') = take (BUF_SIZE - 1) (CHR ''$'' # ''GNGGA,1'')"
    and cand: "candidate_line (store_byte (CHR 0x0A) s')
                 = cstr (take (BUF_SIZE - 1) (CHR ''$'' # ''GNGGA,1'' @ [CHR 0x0A]))"
    and fr: "parsed_data s' = parsed_data gps_module_init"
      "parsed_sem s' = parsed_sem gps_module_init"
    by blast
  have lp': "line_pos s' = 8" using lp by (simp add: BUF_SIZE_def)
  have tk': "take (line_pos s') (nmea_line s') = ''$GNGGA,1''"
    using tk by (simp add: BUF_SIZE_def)
  have cand': "candidate_line (store_byte (CHR 0x0A) s') = ''$GNGGA,1'' @ [CHR 0x0A]"
    using cand by (simp add: BUF_SIZE_def cstr_def)
  have fr': "parsed_data s' = gps_data_init" "parsed_sem s' = 0"
    using fr by (simp_all add: gps_module_init_def)
  from h run lp' tk' cand' fr' show ?thesis by blast
qed

section \<open>Properties of the position worker\<close>

lemma fallback_lat: "f32_to_int32 (f32_mul fallback_lat_deg (f32_lit 1000000)) = Inr 35709664"
  by code_simp

lemma fallback_lon: "f32_to_int32 (f32_mul fallback_lon_deg (f32_lit 1000000)) = Inr 139810784"
  by code_simp

lemma fallback_alt: "f32_to_int32 (f32_mul (f32_of_int 100) (f32_lit 100)) = Inr 10000"
  by code_simp

text \<open>
  C8: when the wait for a parsed sentence times out (\<^verbatim>\<open>k_sem_take\<close> returns a
  negative value), the worker returns its buffer and the whole store unchanged, the
  five position slots among them.
\<close>

theorem C8_timeout_leaves_store:
  "sem_ret < 0 \<Longrightarrow> read_gps_data sem_ret mailbox data meas = Inr (data, meas)"
  by (simp add: read_gps_data_def gps_wait_for_gga_def)

theorem C8_timeout_leaves_store_witness:
  "(- 11 :: int) < 0 \<and>
   read_gps_data (- 11) zero_fix gps_data_init scenario_store = Inr (gps_data_init, scenario_store)"
  using C8_timeout_leaves_store [of "- 11" zero_fix gps_data_init scenario_store] by simp

text \<open>
  C9, as stated, fails on the values: for an all-zero parsed position the worker stores
  35709664 and 139810784, the single-precision results of \<^verbatim>\<open>35.709662f * 1e6f\<close> and
  \<^verbatim>\<open>139.810793f * 1e6f\<close>, not 35709662 and 139810793.
\<close>

theorem C9_fallback_values_counterexample:
  "map_sum id (gps_lat \<circ> snd) (read_gps_data 0 zero_fix gps_data_init scenario_store)
     = Inr 35709664 \<and>
   map_sum id (gps_lat \<circ> snd) (read_gps_data 0 zero_fix gps_data_init scenario_store)
     \<noteq> Inr 35709662 \<and>
   map_sum id (gps_lon \<circ> snd) (read_gps_data 0 zero_fix gps_data_init scenario_store)
     = Inr 139810784 \<and>
   map_sum id (gps_lon \<circ> snd) (read_gps_data 0 zero_fix gps_data_init scenario_store)
     \<noteq> Inr 139810793"
  by (simp add: read_gps_data_def gps_wait_for_gga_def zero_fix_def fallback_lat fallback_lon
      fallback_alt Let_def)

text \<open>
  C9 (amended): for every successfully received record whose latitude, longitude and
  altitude are all exactly zero the worker does not store the zeros: it writes the
  constants 35709664, 139810784 and 10000 into the latitude, longitude and altitude
  slots.
\<close>

theorem C9_zero_fix_fallback:
  "lat mailbox = Fin 0 \<Longrightarrow> lon mailbox = Fin 0 \<Longrightarrow> alt mailbox = Fin 0 \<Longrightarrow>
     \<exists>d m. read_gps_data 0 mailbox data meas = Inr (d, m) \<and>
           sint (gps_lat m) = 35709664 \<and> sint (gps_lon m) = 139810784 \<and>
           sint (gps_alt m) = 10000"
  by (simp add: read_gps_data_def gps_wait_for_gga_def fallback_lat fallback_lon fallback_alt
      Let_def)

theorem C9_zero_fix_fallback_witness:
  "lat zero_fix = Fin 0 \<and> lon zero_fix = Fin 0 \<and> alt zero_fix = Fin 0 \<and>
   (\<exists>d m. read_gps_data 0 zero_fix gps_data_init scenario_store = Inr (d, m) \<and>
          sint (gps_lat m) = 35709664 \<and> sint (gps_lon m) = 139810784 \<and>
          sint (gps_alt m) = 10000)"
proof -
  have z: "lat zero_fix = Fin 0" "lon zero_fix = Fin 0" "alt zero_fix = Fin 0"
    by (simp_all add: zero_fix_def)
  from C9_zero_fix_fallback [OF z, of gps_data_init scenario_store] z show ?thesis by simp
qed

section \<open>Properties of the single-precision arithmetic\<close>

lemma pow2_powi: "pow2 e = power_int 2 e"
  by (simp add: pow2_def power_int_def power_one_over)

lemma pow2_pos: "0 < pow2 e"
  by (simp add: pow2_powi)

lemma pow2_add: "pow2 (a + b) = pow2 a * pow2 b"
  by (simp add: pow2_powi power_int_add)

lemma pow2_mono: "a \<le> b \<Longrightarrow> pow2 a \<le> pow2 b"
  by (simp add: pow2_powi power_int_increasing)

lemma pow2_less_exp: "pow2 a < pow2 b \<Longrightarrow> a < b"
  using pow2_mono [of b a] by (cases "a < b") auto

lemma pow2_half: "pow2 q / 2 = pow2 (q - 1)"
  using pow2_add [of "q - 1" 1] by (simp add: pow2_def)

lemma rhe_err: "\<bar>of_int (round_half_even y) - y\<bar> \<le> 1 / 2"
proof -
  have "of_int \<lfloor>y\<rfloor> \<le> y" "y < of_int \<lfloor>y\<rfloor> + 1" by linarith+
  then show ?thesis
    by (auto simp: round_half_even_def Let_def)
qed

lemma rhe_int: "round_half_even (of_int k) = k"
  by (simp add: round_half_even_def)

lemma rhe_ge: "of_int K \<le> y \<Longrightarrow> K \<le> round_half_even y"
proof -
  assume "of_int K \<le> y"
  then have "K \<le> \<lfloor>y\<rfloor>" by (simp add: le_floor_iff)
  then show ?thesis by (auto simp: round_half_even_def Let_def)
qed

lemma rhe_le: "y \<le> of_int K \<Longrightarrow> round_half_even y \<le> K"
proof -
  assume a: "y \<le> of_int K"
  show ?thesis
  proof (cases "y = of_int \<lfloor>y\<rfloor>")
    case True
    then have "round_half_even y = \<lfloor>y\<rfloor>" by (simp add: round_half_even_def)
    moreover from a have "\<lfloor>y\<rfloor> \<le> K" by (simp add: floor_le_iff) 
    ultimately show ?thesis by simp
  next
    case False
    have "of_int \<lfloor>y\<rfloor> \<le> y" by linarith
    with False have "of_int \<lfloor>y\<rfloor> < y" by linarith
    with a have "of_int \<lfloor>y\<rfloor> < (of_int K :: rat)" by linarith
    then have "\<lfloor>y\<rfloor> < K" by simp
    then show ?thesis by (auto simp: round_half_even_def Let_def)
  qed
qed


lemma f32_exponent_ge: "- 126 \<le> f32_exponent x"
  by (simp add: f32_exponent_def Let_def split: prod.splits)

lemma bitlen_ge1: "0 < p \<Longrightarrow> 1 \<le> bitlen p"
  by (auto simp: bitlen_alt_def)

lemma f32_exponent_le_abs:
  assumes "x \<noteq> 0"
  shows "f32_exponent x = - 126 \<or> pow2 (f32_exponent x) \<le> \<bar>x\<bar>"
proof -
  obtain p q where pq: "quotient_of \<bar>x\<bar> = (p, q)" by (cases "quotient_of \<bar>x\<bar>")
  then have q: "0 < q" by (rule quotient_of_denom_pos)
  from pq have x: "\<bar>x\<bar> = of_int p / of_int q" by (rule quotient_of_div)
  from assms have "0 < \<bar>x\<bar>" by simp
  with x q have p: "0 < p" by (simp add: zero_less_divide_iff)
  define e where "e = bitlen p - bitlen q"
  have low: "pow2 (e - 1) \<le> \<bar>x\<bar>"
  proof -
    from bitlen_bounds [OF p] have "2 ^ nat (bitlen p - 1) \<le> p" by simp
    then have "(of_int (2 ^ nat (bitlen p - 1)) :: rat) \<le> of_int p" by (simp only: of_int_le_iff)
    then have a: "pow2 (bitlen p - 1) \<le> of_int p" using bitlen_ge1 [OF p] by (simp add: pow2_def)
    from bitlen_bounds [OF q] have "q < 2 ^ nat (bitlen q)" by simp
    then have "(of_int q :: rat) < of_int (2 ^ nat (bitlen q))" by (simp only: of_int_less_iff)
    then have b: "of_int q \<le> pow2 (bitlen q)" using bitlen_nonneg [of q] by (simp add: pow2_def)
    have c: "pow2 (e - 1) * pow2 (bitlen q) = pow2 (bitlen p - 1)"
      by (simp add: e_def pow2_add [symmetric])
    have "pow2 (e - 1) * of_int q \<le> pow2 (e - 1) * pow2 (bitlen q)"
      using b pow2_pos [of "e - 1"] by (simp add: mult_le_cancel_left_pos)
    with a c have "pow2 (e - 1) * of_int q \<le> of_int p" by simp
    then show ?thesis using q by (simp add: x pos_le_divide_eq)
  qed
  show ?thesis
    using low by (auto simp: f32_exponent_def pq Let_def e_def max_def)
qed

lemma pow2_double: "pow2 (e + 1) = 2 * pow2 e"
  using pow2_add [of e 1] by (simp add: pow2_def)

lemma pow2_strict_mono: "a < b \<Longrightarrow> pow2 a < pow2 b"
proof -
  assume "a < b"
  then have "pow2 (a + 1) \<le> pow2 b" by (simp add: pow2_mono)
  moreover have "pow2 a < pow2 (a + 1)" using pow2_pos [of a] by (simp add: pow2_double)
  ultimately show ?thesis by simp
qed

lemma f32_round_zero: "f32_round 0 = Fin 0"
  using pow2_pos [of 128] by (simp add: f32_round_def Let_def round_half_even_def)

lemma pow2_le_exp: "pow2 a \<le> pow2 b \<Longrightarrow> a \<le> b"
  using pow2_strict_mono [of b a] by (cases "a \<le> b") auto

lemma f32_exponent_bound:
  assumes "\<bar>x\<bar> \<le> pow2 k" "- 126 \<le> k"
  shows "f32_exponent x \<le> k \<or> x = 0"
proof (cases "x = 0")
  case False
  from f32_exponent_le_abs [OF False] show ?thesis
  proof
    assume "f32_exponent x = - 126" with assms show ?thesis by simp
  next
    assume "pow2 (f32_exponent x) \<le> \<bar>x\<bar>"
    with assms have "pow2 (f32_exponent x) \<le> pow2 k" by simp
    then show ?thesis by (simp add: pow2_le_exp)
  qed
qed simp

lemma round_scaled_err:
  fixes x :: rat
  assumes "0 < s"
  shows "\<bar>of_int (round_half_even (x / s)) * s - x\<bar> \<le> s / 2"
proof -
  define m :: rat where "m = of_int (round_half_even (x / s))"
  have "\<bar>m - x / s\<bar> \<le> 1 / 2" unfolding m_def by (rule rhe_err)
  then have "\<bar>m - x / s\<bar> * s \<le> (1 / 2) * s"
    using assms by (rule_tac mult_right_mono) auto
  moreover have "\<bar>m - x / s\<bar> * s = \<bar>(m - x / s) * s\<bar>"
    using assms by (simp add: abs_mult)
  moreover have "(m - x / s) * s = m * s - x"
    using assms by (simp add: left_diff_distrib)
  ultimately show ?thesis unfolding m_def by simp
qed

lemma f32_round_Fin:
  assumes "r = of_int (round_half_even (x / pow2 (f32_exponent x - 23))) * pow2 (f32_exponent x - 23)"
    and "\<bar>r\<bar> < pow2 128"
  shows "f32_round x = Fin r"
proof -
  from assms(2) have "\<not> pow2 128 \<le> r" "\<not> r \<le> - pow2 128" by linarith+
  then show ?thesis
    unfolding f32_round_def Let_def assms(1) [symmetric] by simp
qed

lemma f32_round_err:
  assumes "\<bar>x\<bar> \<le> pow2 k" "- 125 \<le> k" "k \<le> 127"
  shows "\<exists>r. f32_round x = Fin r \<and> \<bar>r - x\<bar> \<le> pow2 (k - 24)"
proof (cases "x = 0")
  case True
  then show ?thesis using pow2_pos [of "k - 24"] by (simp add: f32_round_zero less_imp_le)
next
  case False
  define q where "q = f32_exponent x - 23"
  define r where "r = of_int (round_half_even (x / pow2 q)) * pow2 q"
  have ek: "f32_exponent x \<le> k"
    using f32_exponent_bound [OF assms(1)] assms(2) False by simp
  have "\<bar>r - x\<bar> \<le> pow2 q / 2" unfolding r_def by (rule round_scaled_err) (rule pow2_pos)
  then have e1: "\<bar>r - x\<bar> \<le> pow2 (q - 1)" by (simp only: pow2_half)
  have "q - 1 \<le> k - 24" using ek by (simp add: q_def)
  then have "pow2 (q - 1) \<le> pow2 (k - 24)" by (rule pow2_mono)
  with e1 have e2: "\<bar>r - x\<bar> \<le> pow2 (k - 24)" by linarith
  have "k - 24 < 127" using assms by simp
  then have "pow2 (k - 24) < pow2 127" by (rule pow2_strict_mono)
  moreover have "pow2 k \<le> pow2 127" using assms(3) by (rule pow2_mono)
  moreover have "pow2 128 = 2 * pow2 127" using pow2_double [of 127] by simp
  ultimately have "\<bar>r\<bar> < pow2 128" using e2 assms(1) by linarith
  with r_def have "f32_round x = Fin r" unfolding q_def by (rule f32_round_Fin)
  with e2 show ?thesis by blast
qed


lemma pow2_24: "pow2 24 = 16777216"
  by (simp add: pow2_def)

lemma f32_round_cases:
  "f32_round x = Fin r \<Longrightarrow>
     r = of_int (round_half_even (x / pow2 (f32_exponent x - 23))) * pow2 (f32_exponent x - 23)"
  by (simp add: f32_round_def Let_def split: if_splits)

lemma f32_exponent_small:
  assumes "\<bar>x\<bar> < 16777216" "x \<noteq> 0"
  shows "f32_exponent x - 23 \<le> 0"
proof -
  from f32_exponent_le_abs [OF assms(2)] show ?thesis
  proof
    assume "f32_exponent x = - 126" then show ?thesis by simp
  next
    assume "pow2 (f32_exponent x) \<le> \<bar>x\<bar>"
    with assms(1) have "pow2 (f32_exponent x) < pow2 24" by (simp add: pow2_24)
    then have "f32_exponent x < 24" by (rule pow2_less_exp)
    then show ?thesis by simp
  qed
qed

lemma int_scaled:
  assumes "q \<le> 0"
  shows "(of_int n :: rat) / pow2 q = of_int (n * 2 ^ nat (- q)) \<and>
         (of_int (n * 2 ^ nat (- q)) :: rat) * pow2 q = of_int n"
proof -
  have "pow2 (- q) * pow2 q = 1" using pow2_add [of "- q" q] by (simp add: pow2_def)
  moreover have "pow2 (- q) = of_int (2 ^ nat (- q))" using assms by (simp add: pow2_def)
  ultimately have i: "(of_int (2 ^ nat (- q)) :: rat) * pow2 q = 1" by simp
  then have "(of_int n :: rat) / pow2 q = of_int n * of_int (2 ^ nat (- q))"
    using pow2_pos [of q] by (simp add: field_simps)
  with i show ?thesis by (simp add: mult.assoc)
qed

lemma f32_round_ge_int:
  assumes "f32_round x = Fin r" "of_int n \<le> x" "\<bar>x\<bar> < 16777216"
  shows "of_int n \<le> r"
proof (cases "x = 0")
  case True
  with assms show ?thesis by (simp add: f32_round_zero)
next
  case False
  define q where "q = f32_exponent x - 23"
  have q: "q \<le> 0" unfolding q_def using assms(3) False by (rule f32_exponent_small)
  define K where "K = n * 2 ^ nat (- q)"
  from int_scaled [OF q, of n]
  have k1: "(of_int n :: rat) / pow2 q = of_int K" and k2: "(of_int K :: rat) * pow2 q = of_int n"
    by (simp_all add: K_def)
  from assms(2) have "of_int n / pow2 q \<le> x / pow2 q"
    using pow2_pos [of q] by (simp add: divide_le_cancel)
  then have "K \<le> round_half_even (x / pow2 q)" unfolding k1 by (rule rhe_ge)
  then have "(of_int K :: rat) * pow2 q \<le> of_int (round_half_even (x / pow2 q)) * pow2 q"
    using pow2_pos [of q] by (simp add: mult_le_cancel_right_pos)
  then show ?thesis
    unfolding k2 using f32_round_cases [OF assms(1)] by (simp add: q_def)
qed

lemma f32_round_le_int:
  assumes "f32_round x = Fin r" "x \<le> of_int n" "\<bar>x\<bar> < 16777216"
  shows "r \<le> of_int n"
proof (cases "x = 0")
  case True
  with assms show ?thesis by (simp add: f32_round_zero)
next
  case False
  define q where "q = f32_exponent x - 23"
  have q: "q \<le> 0" unfolding q_def using assms(3) False by (rule f32_exponent_small)
  define K where "K = n * 2 ^ nat (- q)"
  from int_scaled [OF q, of n]
  have k1: "(of_int n :: rat) / pow2 q = of_int K" and k2: "(of_int K :: rat) * pow2 q = of_int n"
    by (simp_all add: K_def)
  from assms(2) have "x / pow2 q \<le> of_int n / pow2 q"
    using pow2_pos [of q] by (simp add: divide_le_cancel)
  then have "round_half_even (x / pow2 q) \<le> K" unfolding k1 by (rule rhe_le)
  then have "of_int (round_half_even (x / pow2 q)) * pow2 q \<le> (of_int K :: rat) * pow2 q"
    using pow2_pos [of q] by (simp add: mult_le_cancel_right_pos)
  then show ?thesis
    unfolding k2 using f32_round_cases [OF assms(1)] by (simp add: q_def)
qed

lemma f32_round_int:
  assumes "\<bar>n\<bar> < 16777216"
  shows "f32_round (of_int n) = Fin (of_int n)"
proof -
  have a: "\<bar>of_int n :: rat\<bar> < 16777216" using assms by (simp flip: of_int_abs)
  then have "\<bar>of_int n :: rat\<bar> \<le> pow2 24" by (simp add: pow2_24)
  from f32_round_err [OF this] obtain r where r: "f32_round (of_int n) = Fin r" by auto
  from f32_round_ge_int [OF r _ a, of n] f32_round_le_int [OF r _ a, of n]
  have "r = of_int n" by simp
  with r show ?thesis by simp
qed


lemma f32_round_bound:
  assumes "\<bar>x\<bar> \<le> pow2 k" "- 125 \<le> k" "k \<le> 23"
  shows "\<exists>r. f32_round x = Fin r \<and> \<bar>r - x\<bar> \<le> pow2 (k - 24) \<and>
             (\<forall>n. of_int n \<le> x \<longrightarrow> of_int n \<le> r) \<and> (\<forall>n. x \<le> of_int n \<longrightarrow> r \<le> of_int n)"
proof -
  from assms(3) have k: "k \<le> 127" by simp
  from f32_round_err [OF assms(1,2) k] obtain r where
    r: "f32_round x = Fin r" "\<bar>r - x\<bar> \<le> pow2 (k - 24)" by blast
  have "pow2 k < pow2 24" using assms(3) by (simp add: pow2_strict_mono)
  with assms(1) have s: "\<bar>x\<bar> < 16777216" by (simp add: pow2_24)
  show ?thesis
    using r f32_round_ge_int [OF r(1) _ s] f32_round_le_int [OF r(1) _ s] by blast
qed

lemma nmea_core:
  fixes N deg mm :: int and a F :: rat
  assumes N: "N = 100 * deg + mm" "0 \<le> mm" "mm < 60" "0 \<le> deg" "deg \<le> 180"
    and dec: "0 \<le> a" "\<bar>a - F\<bar> \<le> 1 / 1000000" "0 \<le> F" "F < 1"
  shows "\<exists>r. f32_to_int32 (f32_div (f32_add (Fin (of_int N)) (Fin a)) (Fin 100)) = Inr deg \<and>
             f32_add (f32_of_int deg)
               (f32_div (f32_sub (f32_add (Fin (of_int N)) (Fin a))
                           (f32_mul (f32_of_int deg) (Fin 100))) (Fin 60)) = Fin r \<and>
             \<bar>r - (of_int deg + (of_int mm + F) / 60)\<bar> \<le> 1 / 20000"
proof -
  have p15: "pow2 15 = 32768" and p8: "pow2 8 = 256" and p6: "pow2 6 = 64" and p1: "pow2 1 = 2"
    and m9: "pow2 (- 9) = 1 / 512" and m16: "pow2 (- 16) = 1 / 65536"
    and m18: "pow2 (- 18) = 1 / 262144" and m23: "pow2 (- 23) = 1 / 8388608"
    by (simp_all add: pow2_def)
  have Nr: "(of_int N :: rat) = 100 * of_int deg + of_int mm" by (simp add: N(1))
  have degr: "(0::rat) \<le> of_int deg" "(of_int deg :: rat) \<le> 180"
    and mmr: "(0::rat) \<le> of_int mm" "(of_int mm :: rat) \<le> 59"
    using N by simp_all
  \<comment> \<open>value += decimal\<close>
  have "\<bar>of_int N + a\<bar> \<le> pow2 15" using Nr degr mmr dec unfolding p15 by linarith
  from f32_round_bound [OF this]
  have "\<exists>v. f32_round (of_int N + a) = Fin v \<and> \<bar>v - (of_int N + a)\<bar> \<le> 1 / 512 \<and>
            (\<forall>n. of_int n \<le> of_int N + a \<longrightarrow> of_int n \<le> v)"
    by (auto simp: m9)
  then obtain v where
    v: "f32_round (of_int N + a) = Fin v" "\<bar>v - (of_int N + a)\<bar> \<le> 1 / 512"
    and vge: "\<And>n. of_int n \<le> of_int N + a \<Longrightarrow> of_int n \<le> v"
    by blast
  have vN: "of_int N \<le> v" using vge [of N] dec(1) by simp
  \<comment> \<open>value / 100\<close>
  have "\<bar>v / 100\<bar> \<le> pow2 8" using v(2) vN Nr degr mmr dec unfolding p8 by linarith
  from f32_round_bound [OF this]
  have "\<exists>w. f32_round (v / 100) = Fin w \<and> \<bar>w - v / 100\<bar> \<le> 1 / 65536 \<and>
            (\<forall>n. of_int n \<le> v / 100 \<longrightarrow> of_int n \<le> w)"
    by (auto simp: m16)
  then obtain w where
    w: "f32_round (v / 100) = Fin w" "\<bar>w - v / 100\<bar> \<le> 1 / 65536"
    and wge: "\<And>n. of_int n \<le> v / 100 \<Longrightarrow> of_int n \<le> w"
    by blast
  have "of_int deg \<le> v / 100" using vN Nr mmr by linarith
  then have w1: "of_int deg \<le> w" by (rule wge)
  have w2: "w < of_int deg + 1" using w(2) v(2) Nr mmr dec by linarith
  have fl: "\<lfloor>w\<rfloor> = deg" using w1 w2 by (simp add: floor_unique)
  have w0: "0 \<le> w" using w1 degr by linarith
  have conv: "f32_to_int32 (Fin w) = Inr deg"
    using N(4,5) by (simp add: fl w0 Let_def)
  \<comment> \<open>degrees and degrees * 100 are exact\<close>
  have fd: "f32_of_int deg = Fin (of_int deg)"
    unfolding f32_of_int_def using N(4,5) by (intro f32_round_int) simp
  have "f32_round (of_int (deg * 100)) = Fin (of_int (deg * 100))"
    using N(4,5) by (intro f32_round_int) simp
  then have fm: "f32_round (of_int deg * 100) = Fin (of_int deg * 100)" by simp
  \<comment> \<open>minutes\<close>
  have "\<bar>v - of_int deg * 100\<bar> \<le> pow2 6" using v(2) vN Nr mmr dec unfolding p6 by linarith
  from f32_round_bound [OF this]
  have "\<exists>m. f32_round (v - of_int deg * 100) = Fin m \<and>
            \<bar>m - (v - of_int deg * 100)\<bar> \<le> 1 / 262144"
    by (auto simp: m18)
  then obtain m where
    m: "f32_round (v - of_int deg * 100) = Fin m" "\<bar>m - (v - of_int deg * 100)\<bar> \<le> 1 / 262144"
    by blast
  have "\<bar>m / 60\<bar> \<le> pow2 1" using m(2) v(2) vN Nr mmr dec unfolding p1 by linarith
  from f32_round_bound [OF this]
  have "\<exists>u. f32_round (m / 60) = Fin u \<and> \<bar>u - m / 60\<bar> \<le> 1 / 8388608"
    by (auto simp: m23)
  then obtain u where
    u: "f32_round (m / 60) = Fin u" "\<bar>u - m / 60\<bar> \<le> 1 / 8388608"
    by blast
  have "\<bar>of_int deg + u\<bar> \<le> pow2 8"
    using u(2) m(2) v(2) vN Nr mmr degr dec unfolding p8 by linarith
  from f32_round_bound [OF this]
  have "\<exists>r. f32_round (of_int deg + u) = Fin r \<and> \<bar>r - (of_int deg + u)\<bar> \<le> 1 / 65536"
    by (auto simp: m16)
  then obtain r where
    r: "f32_round (of_int deg + u) = Fin r" "\<bar>r - (of_int deg + u)\<bar> \<le> 1 / 65536"
    by blast
  have sixty: "(60::rat) \<noteq> 0" "(100::rat) \<noteq> 0" by simp_all
  have e1: "f32_to_int32 (f32_div (f32_add (Fin (of_int N)) (Fin a)) (Fin 100)) = Inr deg"
    by (simp add: v(1) w(1) conv del: f32_to_int32.simps)
  have e2: "f32_add (f32_of_int deg)
               (f32_div (f32_sub (f32_add (Fin (of_int N)) (Fin a))
                           (f32_mul (f32_of_int deg) (Fin 100))) (Fin 60)) = Fin r"
    by (simp add: v(1) fd fm f32_sub_def m(1) u(1) r(1))
  have ev: "\<bar>v - (of_int N + F)\<bar> \<le> 1 / 512 + 1 / 1000000"
    using v(2) dec(2) by linarith
  have em: "\<bar>m - (of_int mm + F)\<bar> \<le> 1 / 262144 + 1 / 512 + 1 / 1000000"
    using m(2) ev Nr by linarith
  define X where "X = of_int mm + F"
  have "1 / 262144 + 1 / 512 + 1 / 1000000 \<le> (1 / 500 :: rat)" by simp
  with em have em': "\<bar>m - X\<bar> \<le> 1 / 500" unfolding X_def by linarith
  have md: "m / 60 - X / 60 = (m - X) / 60" by (simp add: diff_divide_distrib)
  have "\<bar>m / 60 - X / 60\<bar> = \<bar>m - X\<bar> / 60" by (simp only: md abs_divide abs_numeral)
  with em' have em60: "\<bar>m / 60 - X / 60\<bar> \<le> 1 / 30000" by linarith
  have eu: "\<bar>u - X / 60\<bar> \<le> 1 / 8388608 + 1 / 30000"
    using u(2) em60 by linarith
  have "\<bar>r - (of_int deg + X / 60)\<bar> \<le> 1 / 20000"
    using r(2) eu by linarith
  then have "\<bar>r - (of_int deg + (of_int mm + F) / 60)\<bar> \<le> 1 / 20000"
    unfolding X_def .
  with e1 e2 show ?thesis by blast
qed

section \<open>Properties of the position worker on a record without time\<close>

text \<open>
  A product of magnitude at most 2000000000 rounds to a single-precision value that
  converts to \<^verbatim>\<open>int32_t\<close>, so for a received record in range the worker completes and
  writes the store.
\<close>

lemma pow2_31: "pow2 31 = 2147483648"
  by (simp add: pow2_def)

lemma pow2_7: "pow2 7 = 128"
  by (simp add: pow2_def)

lemma f32_to_int32_ok:
  assumes "\<bar>x\<bar> \<le> 2000000000"
  shows "\<exists>t. f32_to_int32 (f32_round x) = Inr t"
proof -
  from assms have "\<bar>x\<bar> \<le> pow2 31" by (simp add: pow2_31)
  from f32_round_err [OF this, simplified] obtain r where
    r: "f32_round x = Fin r" and e: "\<bar>r - x\<bar> \<le> pow2 7" by auto
  from e assms have b: "\<bar>r\<bar> \<le> 2000000128" by (simp add: pow2_7)
  have "- 2147483648 \<le> \<lfloor>r\<rfloor>" "\<lfloor>r\<rfloor> < 2147483648"
    "- 2147483648 \<le> \<lceil>r\<rceil>" "\<lceil>r\<rceil> < 2147483648"
    using b by linarith+
  then show ?thesis by (simp add: r Let_def)
qed

lemma f32_lit_scale: "f32_lit 1000000 = Fin 1000000" "f32_lit 100 = Fin 100"
  using f32_round_int [of 1000000] f32_round_int [of 100] by (simp_all add: f32_lit_def)

lemma scale_within:
  assumes "f32_within v b" "b * s \<le> 2000000000" "0 \<le> s"
  shows "\<exists>t. f32_to_int32 (f32_mul v (Fin s)) = Inr t"
proof -
  from assms(1) obtain a where v: "v = Fin a" and a: "\<bar>a\<bar> \<le> b" by (cases v) simp_all
  have "\<bar>a * s\<bar> = \<bar>a\<bar> * s" using assms(3) by (simp add: abs_mult)
  also have "\<dots> \<le> b * s" using a assms(3) by (rule mult_right_mono)
  finally have "\<bar>a * s\<bar> \<le> 2000000000" using assms(2) by linarith
  from f32_to_int32_ok [OF this] show ?thesis by (simp add: v)
qed

lemma read_gps_data_untimed:
  assumes "length (utc_time mailbox) < 6" "fix_in_range mailbox"
  shows "\<exists>la lo al. read_gps_data 0 mailbox data meas =
           Inr (mailbox, meas \<lparr> gps_lat := la, gps_lon := lo, gps_alt := al,
                                gps_sats := sats mailbox, gps_time := - 1 \<rparr>)"
proof -
  from assms(2) have w: "f32_within (lat mailbox) 2000" "f32_within (lon mailbox) 2000"
    "f32_within (alt mailbox) 20000000" by (simp_all add: fix_in_range_def)
  from scale_within [OF w(1), of 1000000] obtain la where
    la: "f32_to_int32 (f32_mul (lat mailbox) (f32_lit 1000000)) = Inr la"
    by (auto simp: f32_lit_scale)
  from scale_within [OF w(2), of 1000000] obtain lo where
    lo: "f32_to_int32 (f32_mul (lon mailbox) (f32_lit 1000000)) = Inr lo"
    by (auto simp: f32_lit_scale)
  from scale_within [OF w(3), of 100] obtain al where
    al: "f32_to_int32 (f32_mul (alt mailbox) (f32_lit 100)) = Inr al"
    by (auto simp: f32_lit_scale)
  show ?thesis
  proof (cases "f32_is_zero (lat mailbox) \<and> f32_is_zero (lon mailbox) \<and>
      f32_is_zero (alt mailbox)")
    case True
    with assms(1) have "read_gps_data 0 mailbox data meas =
           Inr (mailbox, meas \<lparr> gps_lat := 35709664, gps_lon := 139810784, gps_alt := 10000,
                                gps_sats := sats mailbox, gps_time := - 1 \<rparr>)"
      by (simp add: read_gps_data_def gps_wait_for_gga_def Let_def fallback_lat fallback_lon
          fallback_alt)
    then show ?thesis by blast
  next
    case False
    with assms(1) have "read_gps_data 0 mailbox data meas =
           Inr (mailbox, meas \<lparr> gps_lat := word_of_int la, gps_lon := word_of_int lo,
                                gps_alt := word_of_int al,
                                gps_sats := sats mailbox, gps_time := - 1 \<rparr>)"
      by (auto simp: read_gps_data_def gps_wait_for_gga_def Let_def la lo al)
    then show ?thesis by blast
  qed
qed

lemma sentinel_time_bytes:
  "get_measurements m main_data = Inr r \<Longrightarrow> gps_time m = - 1 \<Longrightarrow> md_time r = [184, 72, 95]"
  by (auto simp: get_measurements_def Let_def
      unsigned_minus_1_eq_mask mask_eq_exp_minus_1 split: sum.splits if_splits)

text \<open>
  C10: for every successfully received record in range whose time string has fewer
  than six characters, and every store whose colour slots are in range, the worker
  completes and stores -1 in the time slot; read as unsigned that is 4294967295, and
  the encoder run on the resulting store returns a record with the time bytes
  (184, 72, 95).
\<close>

theorem C10_missing_time_sentinel:
  assumes "length (utc_time mailbox) < 6" "fix_in_range mailbox" "colour_in_range meas"
  shows "\<exists>m r. read_gps_data 0 mailbox data meas = Inr (mailbox, m) \<and>
           sint (gps_time m) = - 1 \<and> unat (gps_time m) = 4294967295 \<and>
           get_measurements m main_data = Inr r \<and> md_time r = [184, 72, 95]"
proof -
  from read_gps_data_untimed [OF assms(1,2), of data meas] obtain m where
    m: "read_gps_data 0 mailbox data meas = Inr (mailbox, m)"
    and t: "gps_time m = - 1"
    and c: "red m = red meas" "green m = green meas" "blue m = blue meas"
    by fastforce
  from c assms(3) have "colour_in_range m" by (simp add: colour_in_range_def)
  from get_measurements_total [OF this] obtain r where
    r: "get_measurements m main_data = Inr r" by blast
  from sentinel_time_bytes [OF r t] have b: "md_time r = [184, 72, 95]" .
  have "sint (gps_time m) = - 1" "unat (gps_time m) = 4294967295"
    by (simp_all add: t unsigned_minus_1_eq_mask mask_eq_exp_minus_1)
  with m r b show ?thesis by blast
qed

theorem C10_missing_time_sentinel_witness:
  "length (utc_time untimed_fix) < 6 \<and> fix_in_range untimed_fix \<and>
   colour_in_range scenario_store \<and>
   read_gps_data 0 untimed_fix gps_data_init scenario_store = Inr (untimed_fix, untimed_store) \<and>
   get_measurements untimed_store main_data_init = Inr untimed_record \<and>
   sint (gps_time untimed_store) = - 1 \<and> unat (gps_time untimed_store) = 4294967295 \<and>
   md_time untimed_record = [184, 72, 95]"
proof -
  have l: "length (utc_time untimed_fix) < 6"
    by (simp add: untimed_fix_def)
  have f: "fix_in_range untimed_fix"
    by (simp add: fix_in_range_def untimed_fix_def)
  have k: "colour_in_range scenario_store"
    by (simp add: colour_in_range_def scenario_store_def)
  have c: "f32_to_int32 (f32_mul (Fin (9360725 / 262144)) (f32_lit 1000000)) = Inr 35708332"
    "f32_to_int32 (f32_mul (Fin (572665 / 4096)) (f32_lit 1000000)) = Inr 139810784"
    "f32_to_int32 (f32_mul (Fin 40) (f32_lit 100)) = Inr 4000"
    by code_simp+
  have w: "read_gps_data 0 untimed_fix gps_data_init scenario_store
             = Inr (untimed_fix, untimed_store)"
    by (simp add: read_gps_data_def gps_wait_for_gga_def untimed_fix_def untimed_store_def c
        Let_def)
  have e: "get_measurements untimed_store main_data_init = Inr untimed_record"
    by (simp add: get_measurements_def norm_channel_def Let_def untimed_store_def
        scenario_store_def main_data_init_def untimed_record_def signed_divide_int_def)
  from C10_missing_time_sentinel [OF l f k, of gps_data_init main_data_init] w e
  show ?thesis using l f k by auto
qed

section \<open>Properties of the coordinate conversion\<close>

lemma digit_char_props:
  assumes "d < 10"
  shows "is_digit (digit_char d)" "digit_val (digit_char d) = int d" "digit_char d \<noteq> CHR ''.''"
proof -
  have n: "(of_char (digit_char d) :: nat) = 48 + d"
    using assms by (simp add: digit_char_def)
  then show "is_digit (digit_char d)" using assms by (simp add: is_digit_def)
  have "(of_char (digit_char d) :: int) = int (48 + d)"
    by (metis n of_nat_of_char)
  then show "digit_val (digit_char d) = int d" by (simp add: digit_val_def)
  show "digit_char d \<noteq> CHR ''.''"
  proof
    assume "digit_char d = CHR ''.''"
    then have "(of_char (digit_char d) :: nat) = of_char (CHR ''.'')" by simp
    with n show False by simp
  qed
qed

lemma f32_round_num:
  "f32_round 10 = Fin 10" "f32_round 100 = Fin 100" "f32_round 1000 = Fin 1000"
  "f32_round 10000 = Fin 10000" "f32_round 100000 = Fin 100000"
  using f32_round_int [of 10] f32_round_int [of 100] f32_round_int [of 1000]
    f32_round_int [of 10000] f32_round_int [of 100000] by simp_all

lemma f32_of_int_small: "\<bar>n\<bar> < 16777216 \<Longrightarrow> f32_of_int n = Fin (of_int n)"
  by (simp add: f32_of_int_def f32_round_int)

lemma scan_int_digit:
  assumes "d < 10" "0 \<le> n" "n < 1000000"
  shows "nmea_scan (digit_char d # cs) (Fin (of_int n)) dec False dv
           = nmea_scan cs (Fin (of_int (10 * n + int d))) dec False dv"
proof -
  have "f32_round (of_int (n * 10)) = Fin (of_int (n * 10))"
    using assms by (intro f32_round_int) simp
  then have a: "f32_round (of_int n * 10) = Fin (of_int n * 10)" by simp
  have b: "f32_of_int (int d) = Fin (of_int (int d))"
    using assms by (intro f32_of_int_small) simp
  have "f32_round (of_int (10 * n + int d)) = Fin (of_int (10 * n + int d))"
    using assms by (intro f32_round_int) simp
  then have c: "f32_round (of_int n * 10 + of_nat d) = Fin (10 * of_int n + of_nat d)"
    by (simp add: mult.commute)
  show ?thesis
    using digit_char_props [OF assms(1)] by (simp add: a b c)
qed

lemma scan_frac_digit:
  assumes "d < 10"
  shows "nmea_scan (digit_char d # cs) val dec True dv
           = nmea_scan cs val (f32_add dec (f32_div (f32_of_int (int d)) dv)) True
               (f32_mul dv (Fin 10))"
  using digit_char_props [OF assms] by simp

lemma scan_dot: "nmea_scan (CHR ''.'' # cs) val dec sd dv = nmea_scan cs val dec True dv"
  by (simp add: is_digit_def)

lemma frac_step:
  fixes a D :: rat
  assumes "0 \<le> a" "a \<le> 1" "d < 10" "10 \<le> D"
  shows "\<exists>a'. f32_add (Fin a) (f32_div (f32_of_int (int d)) (Fin D)) = Fin a' \<and> 0 \<le> a' \<and>
              \<bar>a' - (a + of_nat d / D)\<bar> \<le> 3 / 16777216"
proof -
  have p0: "pow2 0 = 1" and p1: "pow2 1 = 2" and m24: "pow2 (- 24) = 1 / 16777216"
    and m23: "pow2 (- 23) = 1 / 8388608"
    by (simp_all add: pow2_def)
  have fd: "f32_of_int (int d) = Fin (of_nat d)"
    using assms(3) f32_of_int_small [of "int d"] by simp
  have "(of_nat d :: rat) \<le> 9" using assms(3) by simp
  then have "(of_nat d :: rat) * 10 \<le> 9 * D" using assms(4) by linarith
  then have dq: "0 \<le> of_nat d / D" "of_nat d / D \<le> 9 / 10"
    using assms(4) by (simp_all add: pos_divide_le_eq)
  then have "\<bar>of_nat d / D\<bar> \<le> pow2 0" unfolding p0 by linarith
  from f32_round_bound [OF this]
  have "\<exists>y. f32_round (of_nat d / D) = Fin y \<and> \<bar>y - of_nat d / D\<bar> \<le> 1 / 16777216 \<and>
            (\<forall>n. of_int n \<le> of_nat d / D \<longrightarrow> of_int n \<le> y)"
    by (auto simp: m24)
  then obtain y where y: "f32_round (of_nat d / D) = Fin y" "\<bar>y - of_nat d / D\<bar> \<le> 1 / 16777216"
    and yge: "\<And>n. of_int n \<le> of_nat d / D \<Longrightarrow> of_int n \<le> y"
    by blast
  have y0: "0 \<le> y" using yge [of 0] dq by simp
  have "\<bar>a + y\<bar> \<le> pow2 1" using y(2) y0 dq assms(1,2) unfolding p1 by linarith
  from f32_round_bound [OF this]
  have "\<exists>z. f32_round (a + y) = Fin z \<and> \<bar>z - (a + y)\<bar> \<le> 1 / 8388608 \<and>
            (\<forall>n. of_int n \<le> a + y \<longrightarrow> of_int n \<le> z)"
    by (auto simp: m23)
  then obtain z where z: "f32_round (a + y) = Fin z" "\<bar>z - (a + y)\<bar> \<le> 1 / 8388608"
    and zge: "\<And>n. of_int n \<le> a + y \<Longrightarrow> of_int n \<le> z"
    by blast
  have z0: "0 \<le> z" using zge [of 0] y0 assms(1) by simp
  have D0: "D \<noteq> 0" using assms(4) by simp
  have "f32_add (Fin a) (f32_div (f32_of_int (int d)) (Fin D)) = Fin z"
    by (simp add: fd D0 y(1) z(1))
  moreover have "\<bar>z - (a + of_nat d / D)\<bar> \<le> 3 / 16777216"
    using z(2) y(2) by linarith
  ultimately show ?thesis using z0 by blast
qed


lemma scan_coord5:
  assumes c: "c1 < 10" "c2 < 10" "c3 < 10" "c4 < 10" "c5 < 10"
    and e: "e1 < 10" "e2 < 10" "e3 < 10" "e4 < 10"
  shows "\<exists>a. nmea_scan (coord_text [c1, c2, c3, c4, c5] [e1, e2, e3, e4]) (Fin 0) (Fin 0) False (Fin 10)
               = (Fin (of_int (10000 * int c1 + 1000 * int c2 + 100 * int c3 + 10 * int c4 + int c5)),
                  Fin a) \<and>
             0 \<le> a \<and>
             \<bar>a - (of_nat e1 / 10 + of_nat e2 / 100 + of_nat e3 / 1000 + of_nat e4 / 10000)\<bar>
               \<le> 1 / 1000000"
proof -
  define n1 where "n1 = 10 * 0 + int c1"
  define n2 where "n2 = 10 * n1 + int c2"
  define n3 where "n3 = 10 * n2 + int c3"
  define n4 where "n4 = 10 * n3 + int c4"
  define n5 where "n5 = 10 * n4 + int c5"
  have b: "0 \<le> n1" "n1 < 1000000" "0 \<le> n2" "n2 < 1000000" "0 \<le> n3" "n3 < 1000000"
    "0 \<le> n4" "n4 < 1000000"
    using c by (simp_all add: n1_def n2_def n3_def n4_def)
  have n5: "n5 = 10000 * int c1 + 1000 * int c2 + 100 * int c3 + 10 * int c4 + int c5"
    by (simp add: n1_def n2_def n3_def n4_def n5_def)
  have z: "Fin 0 = Fin (of_int 0)" by simp
  let ?fr = "map digit_char [e1, e2, e3, e4]"
  have "nmea_scan (coord_text [c1, c2, c3, c4, c5] [e1, e2, e3, e4]) (Fin 0) (Fin 0) False (Fin 10)
          = nmea_scan (digit_char c1 # digit_char c2 # digit_char c3 # digit_char c4 #
              digit_char c5 # CHR ''.'' # ?fr) (Fin (of_int 0)) (Fin 0) False (Fin 10)"
    by (simp add: coord_text_def)
  also have "\<dots> = nmea_scan (digit_char c2 # digit_char c3 # digit_char c4 #
              digit_char c5 # CHR ''.'' # ?fr) (Fin (of_int n1)) (Fin 0) False (Fin 10)"
    unfolding n1_def by (rule scan_int_digit) (simp_all add: c)
  also have "\<dots> = nmea_scan (digit_char c3 # digit_char c4 #
              digit_char c5 # CHR ''.'' # ?fr) (Fin (of_int n2)) (Fin 0) False (Fin 10)"
    unfolding n2_def by (rule scan_int_digit) (simp_all add: c b)
  also have "\<dots> = nmea_scan (digit_char c4 #
              digit_char c5 # CHR ''.'' # ?fr) (Fin (of_int n3)) (Fin 0) False (Fin 10)"
    unfolding n3_def by (rule scan_int_digit) (simp_all add: c b)
  also have "\<dots> = nmea_scan (digit_char c5 # CHR ''.'' # ?fr) (Fin (of_int n4)) (Fin 0) False (Fin 10)"
    unfolding n4_def by (rule scan_int_digit) (simp_all add: c b)
  also have "\<dots> = nmea_scan (CHR ''.'' # ?fr) (Fin (of_int n5)) (Fin 0) False (Fin 10)"
    unfolding n5_def by (rule scan_int_digit) (simp_all add: c b)
  also have "\<dots> = (Fin (of_int n5),
       f32_add (f32_add (f32_add (f32_add (Fin 0) (f32_div (f32_of_int (int e1)) (Fin 10)))
         (f32_div (f32_of_int (int e2)) (Fin 100)))
         (f32_div (f32_of_int (int e3)) (Fin 1000)))
         (f32_div (f32_of_int (int e4)) (Fin 10000)))"
    by (simp add: scan_dot scan_frac_digit e f32_round_num del: nmea_scan.simps(2) f32_add.simps f32_div.simps)
  finally have run: "nmea_scan (coord_text [c1, c2, c3, c4, c5] [e1, e2, e3, e4]) (Fin 0) (Fin 0) False (Fin 10)
      = (Fin (of_int n5),
       f32_add (f32_add (f32_add (f32_add (Fin 0) (f32_div (f32_of_int (int e1)) (Fin 10)))
         (f32_div (f32_of_int (int e2)) (Fin 100)))
         (f32_div (f32_of_int (int e3)) (Fin 1000)))
         (f32_div (f32_of_int (int e4)) (Fin 10000)))" .
  have er: "(of_nat e1 :: rat) \<le> 9" "(of_nat e2 :: rat) \<le> 9" "(of_nat e3 :: rat) \<le> 9"
    "(of_nat e4 :: rat) \<le> 9" "(0 :: rat) \<le> of_nat e1" "(0 :: rat) \<le> of_nat e2"
    "(0 :: rat) \<le> of_nat e3" "(0 :: rat) \<le> of_nat e4"
    using e by simp_all
  from frac_step [of 0 e1 10] e(1) obtain a1 where
    a1: "f32_add (Fin 0) (f32_div (f32_of_int (int e1)) (Fin 10)) = Fin a1" "0 \<le> a1"
      "\<bar>a1 - (0 + of_nat e1 / 10)\<bar> \<le> 3 / 16777216"
    by auto
  have "a1 \<le> 1" using a1(3) er by linarith
  from frac_step [OF a1(2) this e(2), of 100] obtain a2 where
    a2: "f32_add (Fin a1) (f32_div (f32_of_int (int e2)) (Fin 100)) = Fin a2" "0 \<le> a2"
      "\<bar>a2 - (a1 + of_nat e2 / 100)\<bar> \<le> 3 / 16777216"
    by auto
  have "a2 \<le> 1" using a2(3) a1(3) er by linarith
  from frac_step [OF a2(2) this e(3), of 1000] obtain a3 where
    a3: "f32_add (Fin a2) (f32_div (f32_of_int (int e3)) (Fin 1000)) = Fin a3" "0 \<le> a3"
      "\<bar>a3 - (a2 + of_nat e3 / 1000)\<bar> \<le> 3 / 16777216"
    by auto
  have "a3 \<le> 1" using a3(3) a2(3) a1(3) er by linarith
  from frac_step [OF a3(2) this e(4), of 10000] obtain a4 where
    a4: "f32_add (Fin a3) (f32_div (f32_of_int (int e4)) (Fin 10000)) = Fin a4" "0 \<le> a4"
      "\<bar>a4 - (a3 + of_nat e4 / 10000)\<bar> \<le> 3 / 16777216"
    by auto
  have "\<bar>a4 - (of_nat e1 / 10 + of_nat e2 / 100 + of_nat e3 / 1000 + of_nat e4 / 10000)\<bar>
          \<le> 1 / 1000000"
    using a4(3) a3(3) a2(3) a1(3) by linarith
  with run a1(1) a2(1) a3(1) a4(1,2) n5 show ?thesis by (simp only:) blast
qed


lemma nmea_coord5:
  assumes c: "c1 < 10" "c2 < 10" "c3 < 10" "c4 < 10" "c5 < 10"
    and e: "e1 < 10" "e2 < 10" "e3 < 10" "e4 < 10"
    and wf: "100 * c1 + 10 * c2 + c3 \<le> 180" "10 * c4 + c5 < 60"
  shows "\<exists>r. nmea_to_degrees (Some (coord_text [c1, c2, c3, c4, c5] [e1, e2, e3, e4])) dir
               = Inr (Fin (hemisphere_sign dir * r)) \<and>
             \<bar>r - (of_nat (100 * c1 + 10 * c2 + c3)
                    + (of_nat (10 * c4 + c5)
                       + of_nat (1000 * e1 + 100 * e2 + 10 * e3 + e4) / 10000) / 60)\<bar>
               \<le> 1 / 20000"
proof -
  define N where "N = 10000 * int c1 + 1000 * int c2 + 100 * int c3 + 10 * int c4 + int c5"
  define deg where "deg = int (100 * c1 + 10 * c2 + c3)"
  define mm where "mm = int (10 * c4 + c5)"
  define F :: rat where "F = of_nat e1 / 10 + of_nat e2 / 100 + of_nat e3 / 1000 + of_nat e4 / 10000"
  from scan_coord5 [OF c e] obtain a where
    run: "nmea_scan (coord_text [c1, c2, c3, c4, c5] [e1, e2, e3, e4]) (Fin 0) (Fin 0) False (Fin 10)
            = (Fin (of_int N), Fin a)"
    and a: "0 \<le> a" "\<bar>a - F\<bar> \<le> 1 / 1000000"
    unfolding N_def F_def by blast
  have er: "(of_nat e1 :: rat) \<le> 9" "(of_nat e2 :: rat) \<le> 9" "(of_nat e3 :: rat) \<le> 9"
    "(of_nat e4 :: rat) \<le> 9" "(0 :: rat) \<le> of_nat e1" "(0 :: rat) \<le> of_nat e2"
    "(0 :: rat) \<le> of_nat e3" "(0 :: rat) \<le> of_nat e4"
    using e by simp_all
  have F: "0 \<le> F" "F < 1" unfolding F_def using er by linarith+
  have Nd: "N = 100 * deg + mm" by (simp add: N_def deg_def mm_def)
  have b: "0 \<le> mm" "mm < 60" "0 \<le> deg" "deg \<le> 180"
    using wf by (simp_all add: deg_def mm_def)
  from nmea_core [OF Nd b a F] obtain r where
    conv: "f32_to_int32 (f32_div (f32_add (Fin (of_int N)) (Fin a)) (Fin 100)) = Inr deg"
    and res: "f32_add (f32_of_int deg)
               (f32_div (f32_sub (f32_add (Fin (of_int N)) (Fin a))
                           (f32_mul (f32_of_int deg) (Fin 100))) (Fin 60)) = Fin r"
    and bound: "\<bar>r - (of_int deg + (of_int mm + F) / 60)\<bar> \<le> 1 / 20000"
    by blast
  have len: "\<not> length (coord_text [c1, c2, c3, c4, c5] [e1, e2, e3, e4]) < 4"
    by (simp add: coord_text_def)
  have "nmea_to_degrees (Some (coord_text [c1, c2, c3, c4, c5] [e1, e2, e3, e4])) dir
          = Inr (if dir = CHR ''S'' \<or> dir = CHR ''W'' then f32_neg (Fin r) else Fin r)"
    unfolding nmea_to_degrees_def option.case if_not_P [OF len] run prod.case Let_def conv
      sum.case res ..
  then have ev: "nmea_to_degrees (Some (coord_text [c1, c2, c3, c4, c5] [e1, e2, e3, e4])) dir
          = Inr (Fin (hemisphere_sign dir * r))"
    by (simp add: hemisphere_sign_def)
  have "F = of_nat (1000 * e1 + 100 * e2 + 10 * e3 + e4) / 10000"
    by (simp add: F_def)
  with bound have "\<bar>r - (of_nat (100 * c1 + 10 * c2 + c3)
                    + (of_nat (10 * c4 + c5)
                       + of_nat (1000 * e1 + 100 * e2 + 10 * e3 + e4) / 10000) / 60)\<bar>
               \<le> 1 / 20000"
    by (simp add: deg_def mm_def)
  with ev show ?thesis by blast
qed

lemma length_coord_text: "length (coord_text xs fs) = length xs + 1 + length fs"
  by (simp add: coord_text_def)

lemma nmea_leading_zero:
  assumes "3 \<le> length ds"
  shows "nmea_to_degrees (Some (coord_text (0 # ds) fs)) dir
           = nmea_to_degrees (Some (coord_text ds fs)) dir"
proof -
  have "nmea_scan (digit_char 0 # cs) (Fin (of_int 0)) dec False dv
          = nmea_scan cs (Fin (of_int (10 * 0 + int 0))) dec False dv" for cs dec dv
    by (rule scan_int_digit) simp_all
  then have s: "nmea_scan (coord_text (0 # ds) fs) (Fin 0) (Fin 0) False (Fin 10)
               = nmea_scan (coord_text ds fs) (Fin 0) (Fin 0) False (Fin 10)"
    by (simp add: coord_text_def del: nmea_scan.simps)
  have l1: "\<not> length (coord_text (0 # ds) fs) < 4"
    unfolding length_coord_text using assms by simp
  have l2: "\<not> length (coord_text ds fs) < 4"
    unfolding length_coord_text using assms by arith
  show ?thesis
    unfolding nmea_to_degrees_def option.case if_not_P [OF l1] if_not_P [OF l2] s ..
qed

lemma list4: "length xs = 4 \<Longrightarrow> \<exists>a b c d. xs = [a, b, c, d]"
  by (auto simp: length_Suc_conv eval_nat_numeral)

lemma list5: "length xs = 5 \<Longrightarrow> \<exists>a b c d e. xs = [a, b, c, d, e]"
  by (auto simp: length_Suc_conv eval_nat_numeral)

lemma split_hundred:
  fixes q r :: nat
  assumes "r < 100"
  shows "(100 * q + r) div 100 = q" "(100 * q + r) mod 100 = r"
  using assms by simp_all

lemma nmea_to_degrees_tolerance:
  assumes dig: "\<forall>d \<in> set (ds @ fs). d < 10"
    and len: "length ds = 4 \<or> length ds = 5" "length fs = 4"
    and wf: "digits_value ds div 100 \<le> 180" "digits_value ds mod 100 < 60"
  shows "\<exists>r. nmea_to_degrees (Some (coord_text ds fs)) dir = Inr (Fin (hemisphere_sign dir * r)) \<and>
             \<bar>r - exact_degrees ds fs\<bar> \<le> 1 / 20000"
proof -
  from list4 [OF len(2)] obtain e1 e2 e3 e4 where fs: "fs = [e1, e2, e3, e4]" by blast
  have e: "e1 < 10" "e2 < 10" "e3 < 10" "e4 < 10" using dig by (simp_all add: fs)
  have fv: "digits_value fs = 1000 * e1 + 100 * e2 + 10 * e3 + e4" "(10::rat) ^ length fs = 10000"
    by (simp_all add: fs digits_value_def)
  have main: "\<exists>r. nmea_to_degrees (Some (coord_text [c1, c2, c3, c4, c5] fs)) dir
                 = Inr (Fin (hemisphere_sign dir * r)) \<and>
               \<bar>r - exact_degrees [c1, c2, c3, c4, c5] fs\<bar> \<le> 1 / 20000"
    if c: "c1 < 10" "c2 < 10" "c3 < 10" "c4 < 10" "c5 < 10"
      and w: "digits_value [c1, c2, c3, c4, c5] div 100 \<le> 180"
         "digits_value [c1, c2, c3, c4, c5] mod 100 < 60"
    for c1 c2 c3 c4 c5
  proof -
    have dv: "digits_value [c1, c2, c3, c4, c5] = 100 * (100 * c1 + 10 * c2 + c3) + (10 * c4 + c5)"
      by (simp add: digits_value_def)
    have r: "10 * c4 + c5 < 100" using c by simp
    have q: "digits_value [c1, c2, c3, c4, c5] div 100 = 100 * c1 + 10 * c2 + c3"
      "digits_value [c1, c2, c3, c4, c5] mod 100 = 10 * c4 + c5"
      using split_hundred [OF r, of "100 * c1 + 10 * c2 + c3"] by (simp_all only: dv)
    from w have wf': "100 * c1 + 10 * c2 + c3 \<le> 180" "10 * c4 + c5 < 60" unfolding q by simp_all
    from nmea_coord5 [OF c e wf', of dir] show ?thesis
      unfolding exact_degrees_def q fv fs [symmetric] .
  qed
  from len(1) show ?thesis
  proof
    assume "length ds = 5"
    from list5 [OF this] obtain c1 c2 c3 c4 c5 where ds: "ds = [c1, c2, c3, c4, c5]" by blast
    have "c1 < 10" "c2 < 10" "c3 < 10" "c4 < 10" "c5 < 10" using dig by (simp_all add: ds)
    from main [OF this] wf show ?thesis by (simp add: ds)
  next
    assume "length ds = 4"
    from list4 [OF this] obtain c2 c3 c4 c5 where ds: "ds = [c2, c3, c4, c5]" by blast
    have c: "(0::nat) < 10" "c2 < 10" "c3 < 10" "c4 < 10" "c5 < 10" using dig by (simp_all add: ds)
    have v: "digits_value [0, c2, c3, c4, c5] = digits_value ds" by (simp add: ds digits_value_def)
    have x: "exact_degrees [0, c2, c3, c4, c5] fs = exact_degrees ds fs"
      by (simp add: exact_degrees_def v)
    have "nmea_to_degrees (Some (coord_text [0, c2, c3, c4, c5] fs)) dir
            = nmea_to_degrees (Some (coord_text ds fs)) dir"
      unfolding ds by (rule nmea_leading_zero) simp
    with main [OF c] wf show ?thesis unfolding v x by simp
  qed
qed

lemma field_before_comma:
  "CHR '','' \<notin> set f \<Longrightarrow>
     takeWhile (\<lambda>c. c \<noteq> CHR '','') (f @ CHR '','' # rest) = f \<and>
     tl (dropWhile (\<lambda>c. c \<noteq> CHR '','') (f @ CHR '','' # rest)) = rest"
  by (induction f) auto

lemma split_fields_cons:
  "CHR '','' \<notin> set f \<Longrightarrow> split_fields (Suc n) (f @ CHR '','' # rest) = f # split_fields n rest"
  by (simp add: field_before_comma)

lemma digit_char_not_comma: "d < 10 \<Longrightarrow> digit_char d \<noteq> CHR '',''"
proof
  assume "d < 10" "digit_char d = CHR '',''"
  then have "(of_char (char_of (48 + d)) :: nat) = of_char (CHR '','')" by (simp add: digit_char_def)
  with \<open>d < 10\<close> show False by simp
qed

lemma coord_text_no_comma:
  "\<forall>d \<in> set (ds @ fs). d < 10 \<Longrightarrow> CHR '','' \<notin> set (coord_text ds fs)"
proof
  assume d: "\<forall>d \<in> set (ds @ fs). d < 10" and "CHR '','' \<in> set (coord_text ds fs)"
  then have "CHR '','' \<in> digit_char ` set (ds @ fs)" by (auto simp: coord_text_def)
  then obtain x where "x \<in> set (ds @ fs)" "digit_char x = CHR '',''" by (metis imageE)
  with d digit_char_not_comma [of x] show False by blast
qed

lemma length_candidate_line:
  assumes "length (nmea_line s) = BUF_SIZE" "line_pos s < BUF_SIZE"
  shows "length (candidate_line (store_byte c s)) \<le> BUF_SIZE - 1"
proof -
  let ?t = "store_byte c s"
  have lp: "line_pos ?t \<le> BUF_SIZE - 1" using assms by (simp add: store_byte_def BUF_SIZE_def)
  have ln: "length (nmea_line ?t) = BUF_SIZE" using assms by (simp add: store_byte_def)
  from lp ln have "line_pos ?t < length (nmea_line ?t)" by (simp add: BUF_SIZE_def)
  from candidate_line_eq [OF this]
  have "candidate_line ?t = cstr (take (line_pos ?t) (nmea_line ?t))" .
  moreover have "length (cstr (take (line_pos ?t) (nmea_line ?t)))
                   \<le> length (take (line_pos ?t) (nmea_line ?t))"
    unfolding cstr_def by (rule length_takeWhile_le)
  ultimately have "length (candidate_line ?t) \<le> line_pos ?t" by simp
  with lp show ?thesis by simp
qed

lemma split_fields_single:
  "c \<noteq> CHR '','' \<Longrightarrow> split_fields (Suc n) (c # CHR '','' # rest) = [c] # split_fields n rest"
  using split_fields_cons [of "[c]" n rest] by simp

lemma parse_gga_fields:
  assumes line: "cstr raw = tag @ CHR '','' # tm @ CHR '','' # latf @ CHR '','' # ns #
                   CHR '','' # lonf @ CHR '','' # ew # CHR '','' # rest"
    and len: "length (cstr raw) \<le> BUF_SIZE - 1"
    and tag: "strstr tag ''GGA''" "CHR '','' \<notin> set tag"
    and nc: "CHR '','' \<notin> set tm" "CHR '','' \<notin> set latf" "CHR '','' \<notin> set lonf"
       "ns \<noteq> CHR '',''" "ew \<noteq> CHR '',''"
    and la: "nmea_to_degrees (Some latf) ns = Inr la"
    and lo: "nmea_to_degrees (Some lonf) ew = Inr lo"
  shows "\<exists>out. parse_gga atof atoi raw = Inr (Some out) \<and> lat out = la \<and> lon out = lo"
proof -
  have buf: "take (BUF_SIZE - 1) (cstr raw) = cstr raw" using len by simp
  have m: "MAX_FIELDS - 1 = Suc (Suc (Suc (Suc (Suc (Suc 9)))))" by (simp add: MAX_FIELDS_def)
  define more where "more = split_fields 9 rest"
  have flds: "split_fields (MAX_FIELDS - 1) (cstr raw) = tag # tm # latf # [ns] # lonf # [ew] # more"
    unfolding m line more_def
    by (simp only: split_fields_cons [OF tag(2)] split_fields_cons [OF nc(1)]
        split_fields_cons [OF nc(2)] split_fields_single [OF nc(4)]
        split_fields_cons [OF nc(3)] split_fields_single [OF nc(5)])
  have f: "field_at (tag # tm # latf # [ns] # lonf # [ew] # more) 0 = Some tag"
    "field_at (tag # tm # latf # [ns] # lonf # [ew] # more) 1 = Some tm"
    "field_at (tag # tm # latf # [ns] # lonf # [ew] # more) 2 = Some latf"
    "field_at (tag # tm # latf # [ns] # lonf # [ew] # more) 3 = Some [ns]"
    "field_at (tag # tm # latf # [ns] # lonf # [ew] # more) 4 = Some lonf"
    "field_at (tag # tm # latf # [ns] # lonf # [ew] # more) 5 = Some [ew]"
    by (simp_all add: field_at_def)
  have fc: "first_char [ns] = ns" "first_char [ew] = ew" by (simp_all add: first_char_def)
  show ?thesis
    unfolding parse_gga_def buf Let_def flds f fc option.sel la lo sum.case
    using tag(1) by simp
qed


text \<open>
  C1, as stated, fails: the published coordinate is a single-precision number and in
  general not equal to degrees + minutes/60. For the sentence with latitude
  \<^verbatim>\<open>3542.5000\<close>, \<^verbatim>\<open>N\<close> the published latitude is 9360725/262144 =
  35.70833206..., while 35 + 42.5/60 = 857/24 = 35.70833333...; to six decimals the
  published value is 35.708332, not 35.708333.
\<close>

theorem C1_exact_equality_counterexample:
  "candidate_line (store_byte (CHR 0x0A) sample_state)
     = ''$GPGGA,123456.00,3542.5000,N,13948.6476,E,1,08,0.9,545.4,M,46.9,M,,*47'' @ [CHR 0x0A] \<and>
   map_sum id (lat \<circ> parsed_data)
     (uart_isr_byte atof_zero atoi_zero (CHR 0x0A) sample_state) = Inr (Fin (9360725 / 262144)) \<and>
   exact_degrees [3, 5, 4, 2] [5, 0, 0, 0] = 857 / 24 \<and>
   (9360725 / 262144 :: rat) \<noteq> 857 / 24 \<and>
   (9360725 / 262144 :: rat) < 357083325 / 10000000"
proof -
  have a: "candidate_line (store_byte (CHR 0x0A) sample_state)
     = ''$GPGGA,123456.00,3542.5000,N,13948.6476,E,1,08,0.9,545.4,M,46.9,M,,*47'' @ [CHR 0x0A]"
    by code_simp
  have b: "map_sum id (lat \<circ> parsed_data)
     (uart_isr_byte atof_zero atoi_zero (CHR 0x0A) sample_state) = Inr (Fin (9360725 / 262144))"
    by code_simp
  have c: "exact_degrees [3, 5, 4, 2] [5, 0, 0, 0] = 857 / 24"
    by (simp add: exact_degrees_def digits_value_def)
  from a b c show ?thesis by simp
qed

text \<open>
  C1 (amended): when the newline completes a sentence whose field 0 is \<^verbatim>\<open>$GPGGA\<close>
  or \<^verbatim>\<open>$GNGGA\<close>, whose latitude field is \<^verbatim>\<open>DDMM.MMMM\<close> and whose longitude field
  is \<^verbatim>\<open>DDDMM.MMMM\<close> (decimal digits, minutes below 60, longitude degrees at most
  180), each followed by its hemisphere letter, the interrupt routine publishes a record
  and signals the semaphore; the published latitude and longitude are finite
  single-precision values whose magnitudes lie within 1/20000 degree of degrees +
  minutes/60, and they are negated exactly for \<^verbatim>\<open>S\<close> and \<^verbatim>\<open>W\<close>.
\<close>

theorem C1_published_coordinates_within_tolerance:
  assumes sentence: "candidate_line (store_byte (CHR 0x0A) s) =
        tag @ CHR '','' # tm @ CHR '','' # coord_text lat_ds lat_fs @ CHR '','' # ns #
        CHR '','' # coord_text lon_ds lon_fs @ CHR '','' # ew # CHR '','' # rest"
    and state: "length (nmea_line s) = BUF_SIZE" "line_pos s < BUF_SIZE"
    and tag: "tag = ''$GPGGA'' \<or> tag = ''$GNGGA''"
    and tm: "CHR '','' \<notin> set tm"
    and hemi: "ns = CHR ''N'' \<or> ns = CHR ''S''" "ew = CHR ''E'' \<or> ew = CHR ''W''"
    and lat_form: "\<forall>d \<in> set (lat_ds @ lat_fs). d < 10" "length lat_ds = 4" "length lat_fs = 4"
      "digits_value lat_ds mod 100 < 60"
    and lon_form: "\<forall>d \<in> set (lon_ds @ lon_fs). d < 10" "length lon_ds = 5" "length lon_fs = 4"
      "digits_value lon_ds div 100 \<le> 180" "digits_value lon_ds mod 100 < 60"
  shows "\<exists>s' la lo. uart_isr_byte atof atoi (CHR 0x0A) s = Inr s' \<and>
           parsed_sem s' = k_sem_give (parsed_sem s) \<and>
           lat (parsed_data s') = Fin (hemisphere_sign ns * la) \<and>
           \<bar>la - exact_degrees lat_ds lat_fs\<bar> \<le> 1 / 20000 \<and>
           lon (parsed_data s') = Fin (hemisphere_sign ew * lo) \<and>
           \<bar>lo - exact_degrees lon_ds lon_fs\<bar> \<le> 1 / 20000"
proof -
  define s2 where "s2 = terminate_line (store_byte (CHR 0x0A) s)"
  have raw: "cstr (nmea_line s2) = tag @ CHR '','' # tm @ CHR '','' # coord_text lat_ds lat_fs @
        CHR '','' # ns # CHR '','' # coord_text lon_ds lon_fs @ CHR '','' # ew # CHR '','' # rest"
    using sentence by (simp only: s2_def candidate_line_def)
  have len: "length (cstr (nmea_line s2)) \<le> BUF_SIZE - 1"
    using length_candidate_line [OF state, of "CHR 0x0A"] by (simp only: s2_def candidate_line_def)
  have t: "strstr tag ''GGA''" "CHR '','' \<notin> set tag" using tag by auto
  have h: "ns \<noteq> CHR '',''" "ew \<noteq> CHR '',''" using hemi by auto
  from list4 [OF lat_form(2)] obtain a b c d where "lat_ds = [a, b, c, d]" by blast
  with lat_form(1) have "digits_value lat_ds < 181 * 100" by (simp add: digits_value_def)
  then have "digits_value lat_ds div 100 < 181" by (rule less_mult_imp_div_less)
  then have "digits_value lat_ds div 100 \<le> 180" by simp
  from nmea_to_degrees_tolerance [OF lat_form(1) _ lat_form(3) this lat_form(4), of ns] lat_form(2)
  obtain la where la: "nmea_to_degrees (Some (coord_text lat_ds lat_fs)) ns
                         = Inr (Fin (hemisphere_sign ns * la))"
    "\<bar>la - exact_degrees lat_ds lat_fs\<bar> \<le> 1 / 20000"
    by blast
  from nmea_to_degrees_tolerance [OF lon_form(1) _ lon_form(3) lon_form(4) lon_form(5), of ew]
    lon_form(2)
  obtain lo where lo: "nmea_to_degrees (Some (coord_text lon_ds lon_fs)) ew
                         = Inr (Fin (hemisphere_sign ew * lo))"
    "\<bar>lo - exact_degrees lon_ds lon_fs\<bar> \<le> 1 / 20000"
    by blast
  from parse_gga_fields [OF raw len t tm coord_text_no_comma [OF lat_form(1)]
      coord_text_no_comma [OF lon_form(1)] h la(1) lo(1), of atof atoi]
  obtain out where out: "parse_gga atof atoi (nmea_line s2) = Inr (Some out)"
    "lat out = Fin (hemisphere_sign ns * la)" "lon out = Fin (hemisphere_sign ew * lo)"
    by blast
  have rec: "strstr (cstr (nmea_line s2)) ''$GPGGA'' \<or> strstr (cstr (nmea_line s2)) ''$GNGGA''"
    unfolding raw using tag by auto
  have sem: "parsed_sem s2 = parsed_sem s" by (simp add: s2_def terminate_line_def store_byte_def)
  have "uart_isr_byte atof atoi (CHR 0x0A) s
          = Inr (s2 \<lparr> parsed_data := out, parsed_sem := k_sem_give (parsed_sem s2), line_pos := 0 \<rparr>)"
    unfolding uart_isr_byte_def Let_def s2_def [symmetric] using rec out(1) by simp
  with out(2,3) la(2) lo(2) sem show ?thesis by auto
qed


theorem C1_published_coordinates_within_tolerance_witness:
  "candidate_line (store_byte (CHR 0x0A) sample_state) =
     ''$GPGGA'' @ CHR '','' # ''123456.00'' @ CHR '','' # coord_text [3, 5, 4, 2] [5, 0, 0, 0] @
     CHR '','' # CHR ''N'' # CHR '','' # coord_text [1, 3, 9, 4, 8] [6, 4, 7, 6] @ CHR '','' #
     CHR ''E'' # CHR '','' # ''1,08,0.9,545.4,M,46.9,M,,*47'' @ [CHR 0x0A] \<and>
   length (nmea_line sample_state) = BUF_SIZE \<and> line_pos sample_state < BUF_SIZE \<and>
   digits_value [3, 5, 4, 2] mod 100 < 60 \<and>
   digits_value [1, 3, 9, 4, 8] div 100 \<le> 180 \<and> digits_value [1, 3, 9, 4, 8] mod 100 < 60 \<and>
   (\<exists>s' la lo. uart_isr_byte atof_zero atoi_zero (CHR 0x0A) sample_state = Inr s' \<and>
        parsed_sem s' = 1 \<and>
        lat (parsed_data s') = Fin la \<and> \<bar>la - 857 / 24\<bar> \<le> 1 / 20000 \<and>
        lon (parsed_data s') = Fin lo \<and> \<bar>lo - 20971619 / 150000\<bar> \<le> 1 / 20000)"
proof -
  have line: "candidate_line (store_byte (CHR 0x0A) sample_state) =
     ''$GPGGA'' @ CHR '','' # ''123456.00'' @ CHR '','' # coord_text [3, 5, 4, 2] [5, 0, 0, 0] @
     CHR '','' # CHR ''N'' # CHR '','' # coord_text [1, 3, 9, 4, 8] [6, 4, 7, 6] @ CHR '','' #
     CHR ''E'' # CHR '','' # ''1,08,0.9,545.4,M,46.9,M,,*47'' @ [CHR 0x0A]"
    by code_simp
  have st: "length (nmea_line sample_state) = BUF_SIZE" "line_pos sample_state < BUF_SIZE"
    by (simp_all add: sample_state_def BUF_SIZE_def)
  have tag: "''$GPGGA'' = ''$GPGGA'' \<or> ''$GPGGA'' = ''$GNGGA''" by simp
  have tm: "CHR '','' \<notin> set ''123456.00''" by simp
  have hemi: "CHR ''N'' = CHR ''N'' \<or> CHR ''N'' = CHR ''S''"
    "CHR ''E'' = CHR ''E'' \<or> CHR ''E'' = CHR ''W''"
    by simp_all
  have la: "\<forall>d \<in> set ([3, 5, 4, 2] @ [5, 0, 0, 0]). d < (10::nat)" "length [3, 5, 4, 2::nat] = 4"
    "length [5, 0, 0, 0::nat] = 4" "digits_value [3, 5, 4, 2] mod 100 < 60"
    by (simp_all add: digits_value_def)
  have lo: "\<forall>d \<in> set ([1, 3, 9, 4, 8] @ [6, 4, 7, 6]). d < (10::nat)"
    "length [1, 3, 9, 4, 8::nat] = 5" "length [6, 4, 7, 6::nat] = 4"
    "digits_value [1, 3, 9, 4, 8] div 100 \<le> 180" "digits_value [1, 3, 9, 4, 8] mod 100 < 60"
    by (simp_all add: digits_value_def)
  have ex: "exact_degrees [3, 5, 4, 2] [5, 0, 0, 0] = 857 / 24"
    "exact_degrees [1, 3, 9, 4, 8] [6, 4, 7, 6] = 20971619 / 150000"
    by (simp_all add: exact_degrees_def digits_value_def)
  have sem: "parsed_sem sample_state = 0" by (simp add: sample_state_def)
  from C1_published_coordinates_within_tolerance [OF line st tag tm hemi la lo,
      of atof_zero atoi_zero]
  obtain s' x y where
    r: "uart_isr_byte atof_zero atoi_zero (CHR 0x0A) sample_state = Inr s'"
      "parsed_sem s' = k_sem_give (parsed_sem sample_state)"
      "lat (parsed_data s') = Fin (hemisphere_sign (CHR ''N'') * x)"
      "\<bar>x - exact_degrees [3, 5, 4, 2] [5, 0, 0, 0]\<bar> \<le> 1 / 20000"
      "lon (parsed_data s') = Fin (hemisphere_sign (CHR ''E'') * y)"
      "\<bar>y - exact_degrees [1, 3, 9, 4, 8] [6, 4, 7, 6]\<bar> \<le> 1 / 20000"
    by blast
  have r2: "parsed_sem s' = 1" using r(2) by (simp add: sem k_sem_give_def)
  have r3: "lat (parsed_data s') = Fin x" using r(3) by (simp add: hemisphere_sign_def)
  have r4: "\<bar>x - 857 / 24\<bar> \<le> 1 / 20000" using r(4) unfolding ex(1) .
  have r5: "lon (parsed_data s') = Fin y" using r(5) by (simp add: hemisphere_sign_def)
  have r6: "\<bar>y - 20971619 / 150000\<bar> \<le> 1 / 20000" using r(6) unfolding ex(2) .
  from line st la(4) lo(4,5) r(1) r2 r3 r4 r5 r6 show ?thesis by blast
qed

end
